theory Spec2Isabelle
  imports Complex_Main
begin

section \<open>Shared data: Python values, strings, errors\<close>

text \<open>
  The client library is Python. Its unbounded \<^verbatim>\<open>int\<close> is \<open>int\<close>, its \<^verbatim>\<open>float\<close> is a
  double whose arithmetic rounds (next section), and every exception the modelled code
  can raise is a constructor of \<open>error\<close>; a function that can raise returns
  \<open>error + 'a\<close> with \<open>Inl\<close> for the exception.
\<close>

datatype error =
    ZeroDivisionError
  | IndexError
  | KeyError
  | TypeError
  | ValueError string
  | EmbeddingColumnMismatchError string string

text \<open>
  A string is the list of its code points, and a \<open>char\<close> holds the code points below
  256. \<^verbatim>\<open>str.lower()\<close> on them: the ASCII capitals, and the capitals of the Latin-1
  block (192 to 222 except the multiplication sign 215), move up by 32.
\<close>

definition char_lower :: "char \<Rightarrow> char" where
  "char_lower c =
     (case map_of (zip ''ABCDEFGHIJKLMNOPQRSTUVWXYZ'' ''abcdefghijklmnopqrstuvwxyz'') c of
        Some l \<Rightarrow> l
      | None \<Rightarrow>
          (if 192 \<le> (of_char c :: nat) \<and> (of_char c :: nat) \<le> 222 \<and> (of_char c :: nat) \<noteq> 215
           then char_of ((of_char c :: nat) + 32) else c))"

definition lower :: "string \<Rightarrow> string" where
  "lower s = map char_lower s"

section \<open>Python floats\<close>

text \<open>
  A Python \<^verbatim>\<open>float\<close> is an IEEE 754 binary64 number. A finite one is modelled by its
  value, a real number, and an arithmetic operation is the exact operation followed by
  rounding to the nearest double, ties going to the even significand. A double has a
  significand of 53 bits; its exponent is at least -1022, and below \<open>2\<^sup>-\<^sup>1\<^sup>0\<^sup>2\<^sup>2\<close> the
  doubles are evenly spaced (the subnormal range), so that tiny quotients round to
  multiples of \<open>2\<^sup>-\<^sup>1\<^sup>0\<^sup>7\<^sup>4\<close> and finally to zero. Infinities and NaN are outside the
  model, which is that of computations that stay below the overflow threshold
  \<open>2\<^sup>1\<^sup>0\<^sup>2\<^sup>4\<close>, as those of reciprocal rank fusion do (a reciprocal rank is at most 1
  in magnitude, and there are as many of them as the lists have items) and those of
  weighted rank fusion with weights of ordinary size.
\<close>

definition round_half_even :: "real \<Rightarrow> int" where
  "round_half_even x =
     (let f = \<lfloor>x\<rfloor> in
      if x - of_int f < 1 / 2 then f
      else if 1 / 2 < x - of_int f then f + 1
      else if even f then f else f + 1)"

text \<open>The exponent of the binade of \<open>x\<close>, and the spacing of the doubles in it.\<close>

definition exponent :: "real \<Rightarrow> int" where
  "exponent x = max \<lfloor>log 2 \<bar>x\<bar>\<rfloor> (- 1022)"

definition ulp :: "real \<Rightarrow> real" where
  "ulp x = 2 powi (exponent x - 52)"

definition rnd :: "real \<Rightarrow> real" where
  "rnd x =
     (if x = 0 then 0
      else if x < 0 then - (of_int (round_half_even (- x / ulp x)) * ulp x)
      else of_int (round_half_even (x / ulp x)) * ulp x)"

text \<open>
  The operators of Python the modelled code uses. \<^verbatim>\<open>a + b\<close>, \<^verbatim>\<open>a * b\<close> and
  \<^verbatim>\<open>a / b\<close> on floats round once; \<^verbatim>\<open>a / b\<close> on two \<^verbatim>\<open>int\<close> is the correctly
  rounded quotient of the integers and raises \<^verbatim>\<open>ZeroDivisionError\<close> for \<open>b = 0\<close>
  (its \<^verbatim>\<open>OverflowError\<close>, for a quotient beyond the doubles, cannot arise with the
  numerator 1 of the modelled code).
\<close>

definition float_add :: "real \<Rightarrow> real \<Rightarrow> real" where
  "float_add a b = rnd (a + b)"

definition float_mul :: "real \<Rightarrow> real \<Rightarrow> real" where
  "float_mul a b = rnd (a * b)"

definition float_truediv :: "real \<Rightarrow> real \<Rightarrow> real" where
  "float_truediv a b = rnd (a / b)"

definition int_truediv :: "int \<Rightarrow> int \<Rightarrow> error + real" where
  "int_truediv a b =
     (if b = 0 then Inl ZeroDivisionError else Inr (rnd (real_of_int a / real_of_int b)))"

text \<open>
  A number as the rerank functions receive it: the ranks are \<^verbatim>\<open>int\<close>, a score may be
  a \<^verbatim>\<open>float\<close>. \<open>as_float\<close> is the conversion \<^verbatim>\<open>math.atan\<close> applies to its argument
  (an \<^verbatim>\<open>int\<close> is rounded to the nearest double; the ranks converted here are list
  positions, far below \<open>2\<^sup>1\<^sup>0\<^sup>2\<^sup>4\<close>, from where the conversion raises) and \<open>negate\<close>
  the unary minus, exact on both.
\<close>

datatype number = PyInt int | PyFloat real

fun as_float :: "number \<Rightarrow> real" where
  "as_float (PyInt i) = rnd (real_of_int i)"
| "as_float (PyFloat x) = x"

fun negate :: "number \<Rightarrow> number" where
  "negate (PyInt i) = PyInt (- i)"
| "negate (PyFloat x) = PyFloat (- x)"

text \<open>\<^verbatim>\<open>math.pi\<close>, the double \<^verbatim>\<open>3.141592653589793\<close>.\<close>

definition math_pi :: real where
  "math_pi = 884279719003555 / 2 ^ 48"

section \<open>Rerank engine (mo\_vector/client/utils.py)\<close>

subsection \<open>Score normalisation\<close>

text \<open>
  \<^verbatim>\<open>arctan_normalize(score) = (1.0 / math.pi) * math.atan(score) + 0.5\<close>.
  \<^verbatim>\<open>math.atan\<close> is the arctangent of the platform's C library, which is not part of
  the repository and whose last bit differs between platforms: it is the parameter
  \<open>math_atan\<close>, a function from doubles to doubles.
\<close>

definition arctan_normalize :: "(real \<Rightarrow> real) \<Rightarrow> number \<Rightarrow> real" where
  "arctan_normalize math_atan score =
     float_add (float_mul (float_truediv 1 math_pi) (math_atan (as_float score))) (1 / 2)"

text \<open>
  \<^verbatim>\<open>convert_metric_score\<close> overwrites its \<^verbatim>\<open>metric_type\<close> argument with \<^verbatim>\<open>"l2"\<close>
  before the case distinction, so the first branch is always the one taken.
\<close>

definition convert_metric_score :: "(real \<Rightarrow> real) \<Rightarrow> number \<Rightarrow> string \<Rightarrow> real" where
  "convert_metric_score math_atan original_score metric_type =
     (let metric_type = ''l2'';
          score_for_arctan =
            (if lower metric_type \<in> set [''l2'', ''euclidean''] then negate original_score
             else if lower metric_type \<in> set [''ip'', ''inner_product''] then original_score
             else if lower metric_type \<in> set [''cosine''] then original_score
             else original_score)
      in arctan_normalize math_atan score_for_arctan)"

subsection \<open>Score dictionaries\<close>

text \<open>
  A Python \<^verbatim>\<open>dict\<close> keeps its keys in insertion order, and the order is what breaks ties
  after sorting, so the score dictionary is an association list in insertion order.
  \<open>dict_add\<close> is the source's
  \<^verbatim>\<open>if text in d: d[text] += s else: d[text] = s\<close>; the sum is a float addition.
\<close>

type_synonym 'a score_dict = "('a \<times> real) list"

fun dict_add :: "'a \<Rightarrow> real \<Rightarrow> 'a score_dict \<Rightarrow> 'a score_dict" where
  "dict_add t s [] = [(t, s)]"
| "dict_add t s ((t', s') # d) =
     (if t' = t then (t', float_add s' s) # d else (t', s') # dict_add t s d)"

text \<open>\<^verbatim>\<open>enumerate(xs, start=1)\<close>\<close>

definition enumerate1 :: "'a list \<Rightarrow> (nat \<times> 'a) list" where
  "enumerate1 xs = zip [1..<Suc (length xs)] xs"

text \<open>
  \<^verbatim>\<open>sorted(d.items(), key=lambda x: x[1], reverse=True)\<close>: Python's sort is stable
  also with \<^verbatim>\<open>reverse=True\<close>, which is the stable sort on the negated key.
\<close>

definition sorted_desc :: "'a score_dict \<Rightarrow> 'a score_dict" where
  "sorted_desc d = sort_key (\<lambda>(t, s). - s) d"

text \<open>The slice \<^verbatim>\<open>xs[:k]\<close>; a negative \<open>k\<close> counts from the end.\<close>

definition slice_to :: "int \<Rightarrow> 'a list \<Rightarrow> 'a list" where
  "slice_to k xs = (if 0 \<le> k then take (nat k) xs else take (nat (int (length xs) + k)) xs)"

text \<open>\<^verbatim>\<open>[[score, text] for text, score in sorted_results[:k]]\<close>\<close>

definition top_k :: "int \<Rightarrow> 'a score_dict \<Rightarrow> (real \<times> 'a) list" where
  "top_k k d = map (\<lambda>(t, s). (s, t)) (slice_to k (sorted_desc d))"

subsection \<open>Reciprocal rank fusion\<close>

text \<open>
  One pass of \<^verbatim>\<open>for score, text in enumerate(result, start=1)\<close>. The division
  \<^verbatim>\<open>1 / (rank_value + score)\<close> divides two \<^verbatim>\<open>int\<close>.
\<close>

fun rrf_loop :: "int \<Rightarrow> (nat \<times> 'a) list \<Rightarrow> 'a score_dict \<Rightarrow> error + 'a score_dict" where
  "rrf_loop rank_value [] rrf_scores = Inr rrf_scores"
| "rrf_loop rank_value ((score, t) # rest) rrf_scores =
     (case int_truediv 1 (rank_value + int score) of
        Inl e \<Rightarrow> Inl e
      | Inr rrf_score \<Rightarrow> rrf_loop rank_value rest (dict_add t rrf_score rrf_scores))"

definition rrf_rerank ::
  "'a list \<Rightarrow> 'a list \<Rightarrow> int \<Rightarrow> int \<Rightarrow> error + (real \<times> 'a) list" where
  "rrf_rerank vector_query_result full_text_query_result k rank_value =
     (case rrf_loop rank_value (enumerate1 vector_query_result) [] of
        Inl e \<Rightarrow> Inl e
      | Inr rrf_scores \<Rightarrow>
          (case rrf_loop rank_value (enumerate1 full_text_query_result) rrf_scores of
             Inl e \<Rightarrow> Inl e
           | Inr rrf_scores' \<Rightarrow> Inr (top_k k rrf_scores')))"

subsection \<open>Weighted rank fusion\<close>

text \<open>\<^verbatim>\<open>weights[i]\<close> for the two constant indices the source uses.\<close>

definition index :: "'a list \<Rightarrow> nat \<Rightarrow> error + 'a" where
  "index xs i = (if i < length xs then Inr (xs ! i) else Inl IndexError)"

text \<open>
  The loop over \<^verbatim>\<open>all_results\<close>. The rank \<^verbatim>\<open>score\<close> is an \<^verbatim>\<open>int\<close>; the weights are
  floats.
\<close>

fun weighted_loop ::
  "(real \<Rightarrow> real) \<Rightarrow> real list \<Rightarrow> (nat \<times> 'a \<times> string) list \<Rightarrow> 'a score_dict \<Rightarrow>
   error + 'a score_dict" where
  "weighted_loop math_atan weights [] doc_score_map = Inr doc_score_map"
| "weighted_loop math_atan weights ((score, t, model_type) # rest) doc_score_map =
     (case (if model_type = ''vector'' then index weights 0 else index weights 1) of
        Inl e \<Rightarrow> Inl e
      | Inr weight \<Rightarrow>
          (let norm_score = convert_metric_score math_atan (PyInt (int score)) model_type;
               weighted_score = float_mul norm_score weight
           in weighted_loop math_atan weights rest (dict_add t weighted_score doc_score_map)))"

definition weighted_rank ::
  "(real \<Rightarrow> real) \<Rightarrow> 'a list \<Rightarrow> 'a list \<Rightarrow> int \<Rightarrow> real list \<Rightarrow> error + (real \<times> 'a) list" where
  "weighted_rank math_atan vector_query_result full_text_query_result k weights =
     (let all_results =
            map (\<lambda>(score, t). (score, t, ''vector'')) (enumerate1 vector_query_result) @
            map (\<lambda>(score, t). (score, t, ''full_text'')) (enumerate1 full_text_query_result)
      in case weighted_loop math_atan weights all_results [] of
           Inl e \<Rightarrow> Inl e
         | Inr doc_score_map \<Rightarrow> Inr (top_k k doc_score_map))"

subsection \<open>Dispatch\<close>

text \<open>
  The option dictionary, one field per key the code reads; \<open>None\<close> is an absent key.
  \<^verbatim>\<open>rerank_option["rerank_type"]\<close> raises \<^verbatim>\<open>KeyError\<close> on an absent key, the other
  three are read with \<^verbatim>\<open>.get\<close> and a default.
\<close>

record rerank_option =
  rerank_type :: "string option"
  rank_value :: "int option"
  weighted_score :: "real list option"
  rerank_score_threshold :: "real option"

text \<open>
  The first two branches return \<^verbatim>\<open>[score, text]\<close> pairs, the fallback returns bare
  items: \<^verbatim>\<open>list(set(vector_data + full_text_data))\<close>. The iteration order of a Python
  set is unspecified; \<open>remdups\<close> fixes one order, and only facts that do not depend on
  the order are stated about it.
\<close>

datatype 'a reranked = Scored "(real \<times> 'a) list" | Plain "'a list"

definition rerank_data ::
  "(real \<Rightarrow> real) \<Rightarrow> 'a list \<Rightarrow> 'a list \<Rightarrow> int \<Rightarrow> rerank_option \<Rightarrow> error + 'a reranked" where
  "rerank_data math_atan vector_data full_text_data k opt =
     (case rerank_type opt of
        None \<Rightarrow> Inl KeyError
      | Some rtype \<Rightarrow>
          (let rank_v = (case rank_value opt of None \<Rightarrow> 0 | Some c \<Rightarrow> c);
               weighted = (case weighted_score opt of None \<Rightarrow> [] | Some ws \<Rightarrow> ws)
           in if rtype = ''RRF'' then
                (case rrf_rerank vector_data full_text_data k rank_v of
                   Inl e \<Rightarrow> Inl e
                 | Inr res \<Rightarrow> Inr (Scored res))
              else if rtype = ''WeightedRank'' then
                (case weighted_rank math_atan vector_data full_text_data k weighted of
                   Inl e \<Rightarrow> Inl e
                 | Inr res \<Rightarrow> Inr (Scored res))
              else Inr (Plain (remdups (vector_data @ full_text_data)))))"

section \<open>Filter clause compiler (mo\_vector/client/vector\_client.py)\<close>

subsection \<open>Filter expressions and predicates\<close>

text \<open>
  A filter is a Python \<^verbatim>\<open>Dict[str, Any]\<close>. Its values are modelled as JSON-like data;
  a dictionary is the list of its items in insertion order (the order the source's
  \<^verbatim>\<open>for key, value in filters.items()\<close> visits them), with string keys as the type
  annotation says.
\<close>

datatype json =
    JNull
  | JBool bool
  | JInt int
  | JFloat real
  | JStr string
  | JList "json list"
  | JDict "(string \<times> json) list"

text \<open>
  The SQLAlchemy expression the compiler builds, as the tree of the calls that build it:
  \<^verbatim>\<open>sqlalchemy.true()\<close>, \<^verbatim>\<open>and_(*cs)\<close>, \<^verbatim>\<open>or_(*cs)\<close>, a comparison of
  \<^verbatim>\<open>json_extract(meta, path)\<close> with a literal, and \<^verbatim>\<open>id.in_(ids)\<close>.
  \<open>NotIn\<close> is \<^verbatim>\<open>~json_key.in_(v)\<close>.
\<close>

datatype comparator = In | NotIn | Gt | Gte | Lt | Lte | Ne | Eq

datatype clause =
    CTrue
  | CAnd "clause list"
  | COr "clause list"
  | CJson comparator string json
  | CIdIn "string list"

text \<open>The warnings written to the logger, in order.\<close>

datatype warning = UnsupportedFilterOperator "(string \<times> json) list"

type_synonym log = "warning list"

definition operator_keys :: "string list" where
  "operator_keys = [''$in'', ''$nin'', ''$gt'', ''$gte'', ''$lt'', ''$lte'', ''$eq'', ''$ne'']"

text \<open>\<^verbatim>\<open>f"$.{key}"\<close>\<close>

definition json_path :: "string \<Rightarrow> string" where
  "json_path key = ''$.'' @ key"

text \<open>
  The message of the \<^verbatim>\<open>ValueError\<close> raised for a bare operator key. The f-string
  interpolates \<^verbatim>\<open>{filter}\<close>, which in that scope is Python's builtin (the parameter is
  named \<^verbatim>\<open>filters\<close>), so the text is fixed.
\<close>

definition bare_operator_message :: "string \<Rightarrow> string" where
  "bare_operator_message key =
     ''Got unexpected filter expression: <class '' @ [CHR 0x27] @ ''filter'' @ [CHR 0x27] @
     ''>. Operator '' @ key @ '' must be followed by a meta key. ''"

text \<open>
  \<^verbatim>\<open>value_case_insensitive = {k.lower(): v for k, v in value.items()}\<close> followed by
  \<^verbatim>\<open>value_case_insensitive[op]\<close>: of two keys with the same lower-case form the later
  one wins. \<^verbatim>\<open>op in map(str.lower, value)\<close> holds exactly when this lookup succeeds.
\<close>

definition lookup_ci :: "string \<Rightarrow> (string \<times> json) list \<Rightarrow> json option" where
  "lookup_ci op v = map_of (rev (map (\<lambda>(k, x). (lower k, x)) v)) op"

text \<open>
  \<^verbatim>\<open>_create_filter_clause\<close>: the first operator found, in the source's order
  (\<^verbatim>\<open>$in, $nin, $gt, $gte, $lt, $lte, $ne, $eq\<close>), decides; with none, a warning is
  logged and \<^verbatim>\<open>None\<close> is returned.
\<close>

definition create_filter_clause ::
  "string \<Rightarrow> (string \<times> json) list \<Rightarrow> log \<Rightarrow> clause option \<times> log" where
  "create_filter_clause key v lg =
     (let json_key = json_path key in
      case lookup_ci ''$in'' v of Some x \<Rightarrow> (Some (CJson In json_key x), lg) | None \<Rightarrow>
      (case lookup_ci ''$nin'' v of Some x \<Rightarrow> (Some (CJson NotIn json_key x), lg) | None \<Rightarrow>
      (case lookup_ci ''$gt'' v of Some x \<Rightarrow> (Some (CJson Gt json_key x), lg) | None \<Rightarrow>
      (case lookup_ci ''$gte'' v of Some x \<Rightarrow> (Some (CJson Gte json_key x), lg) | None \<Rightarrow>
      (case lookup_ci ''$lt'' v of Some x \<Rightarrow> (Some (CJson Lt json_key x), lg) | None \<Rightarrow>
      (case lookup_ci ''$lte'' v of Some x \<Rightarrow> (Some (CJson Lte json_key x), lg) | None \<Rightarrow>
      (case lookup_ci ''$ne'' v of Some x \<Rightarrow> (Some (CJson Ne json_key x), lg) | None \<Rightarrow>
      (case lookup_ci ''$eq'' v of Some x \<Rightarrow> (Some (CJson Eq json_key x), lg) | None \<Rightarrow>
      (None, lg @ [UnsupportedFilterOperator v])))))))))"

text \<open>\<^verbatim>\<open>filter_clauses.append(c)\<close> in front of what the rest of the loop appends.\<close>

definition prepend ::
  "clause \<Rightarrow> (error + clause list) \<times> log \<Rightarrow> (error + clause list) \<times> log" where
  "prepend c r = (case r of (Inl e, lg) \<Rightarrow> (Inl e, lg) | (Inr cs, lg) \<Rightarrow> (Inr (c # cs), lg))"

text \<open>
  \<open>filter_items\<close> is the loop \<^verbatim>\<open>for key, value in filters.items()\<close> of
  \<^verbatim>\<open>_build_filter_clause\<close>, returning the list \<^verbatim>\<open>filter_clauses\<close>; \<open>conditions\<close> is
  the comprehension
  \<^verbatim>\<open>[self._build_filter_clause(c, table_model) for c in value if isinstance(c, dict) and c is not None]\<close>.
  The log is threaded through, and an exception ends the loop with the log as it stands.

  \<^verbatim>\<open>for condition in value\<close> iterates a list over its elements, a dictionary over its
  keys and a string over its characters (neither of which is a dictionary, so the
  comprehension is empty), and raises \<^verbatim>\<open>TypeError\<close> on a number, a boolean or
  \<^verbatim>\<open>None\<close>.
\<close>

fun filter_items :: "(string \<times> json) list \<Rightarrow> log \<Rightarrow> (error + clause list) \<times> log"
and conditions :: "json list \<Rightarrow> log \<Rightarrow> (error + clause list) \<times> log"
where
  "filter_items [] lg = (Inr [], lg)"
| "filter_items ((key, v) # rest) lg =
     (if lower key = ''$and'' then
        (case v of
           JList conds \<Rightarrow>
             (case conditions conds lg of
                (Inl e, lg') \<Rightarrow> (Inl e, lg')
              | (Inr and_clauses, lg') \<Rightarrow> prepend (CAnd and_clauses) (filter_items rest lg'))
         | JDict d \<Rightarrow> prepend (CAnd []) (filter_items rest lg)
         | JStr s \<Rightarrow> prepend (CAnd []) (filter_items rest lg)
         | _ \<Rightarrow> (Inl TypeError, lg))
      else if lower key = ''$or'' then
        (case v of
           JList conds \<Rightarrow>
             (case conditions conds lg of
                (Inl e, lg') \<Rightarrow> (Inl e, lg')
              | (Inr or_clauses, lg') \<Rightarrow> prepend (COr or_clauses) (filter_items rest lg'))
         | JDict d \<Rightarrow> prepend (COr []) (filter_items rest lg)
         | JStr s \<Rightarrow> prepend (COr []) (filter_items rest lg)
         | _ \<Rightarrow> (Inl TypeError, lg))
      else if lower key \<in> set operator_keys then
        (Inl (ValueError (bare_operator_message key)), lg)
      else
        (case v of
           JDict d \<Rightarrow>
             (case create_filter_clause key d lg of
                (None, lg') \<Rightarrow> filter_items rest lg'
              | (Some filter_by_metadata, lg') \<Rightarrow>
                  prepend filter_by_metadata (filter_items rest lg'))
         | _ \<Rightarrow> prepend (CJson Eq (json_path key) v) (filter_items rest lg)))"
| "conditions [] lg = (Inr [], lg)"
| "conditions (condition # rest) lg =
     (case condition of
        JDict d \<Rightarrow>
          (case filter_items d lg of
             (Inl e, lg') \<Rightarrow> (Inl e, lg')
           | (Inr filter_clauses, lg') \<Rightarrow>
               prepend (CAnd (CTrue # filter_clauses)) (conditions rest lg'))
      | _ \<Rightarrow> conditions rest lg)"

text \<open>
  \<^verbatim>\<open>_build_filter_clause(filters)\<close>: \<^verbatim>\<open>sqlalchemy.true()\<close> for \<^verbatim>\<open>None\<close>, and
  \<^verbatim>\<open>and_(true(), *filter_clauses)\<close> otherwise.
\<close>

definition build_filter_clause ::
  "(string \<times> json) list option \<Rightarrow> log \<Rightarrow> (error + clause) \<times> log" where
  "build_filter_clause filters lg =
     (case filters of
        None \<Rightarrow> (Inr CTrue, lg)
      | Some d \<Rightarrow>
          (case filter_items d lg of
             (Inl e, lg') \<Rightarrow> (Inl e, lg')
           | (Inr filter_clauses, lg') \<Rightarrow> (Inr (CAnd (CTrue # filter_clauses)), lg')))"

text \<open>
  The exceptions of the compiler that the specification files under configuration
  errors: the \<^verbatim>\<open>ValueError\<close> for an operator that is not under a field, and the
  \<^verbatim>\<open>TypeError\<close> of a combinator whose value is not a sequence.
\<close>

fun configuration_error :: "error \<Rightarrow> bool" where
  "configuration_error (ValueError m) = True"
| "configuration_error TypeError = True"
| "configuration_error e = False"

text \<open>\<^verbatim>\<open>isinstance(condition, dict)\<close>\<close>

fun is_mapping :: "json \<Rightarrow> bool" where
  "is_mapping (JDict d) = True"
| "is_mapping j = False"

text \<open>
  The loop over the items \<open>rest\<close>, continued from a result \<open>r\<close> of the loop over the
  items before them: an exception ends it, otherwise the clauses are appended.
\<close>

definition then_items ::
  "(error + clause list) \<times> log \<Rightarrow> ((string \<times> json) list) \<Rightarrow> (error + clause list) \<times> log" where
  "then_items r rest =
     (case r of
        (Inl e, lg) \<Rightarrow> (Inl e, lg)
      | (Inr cs, lg) \<Rightarrow>
          (case filter_items rest lg of
             (Inl e, lg') \<Rightarrow> (Inl e, lg')
           | (Inr cs', lg') \<Rightarrow> (Inr (cs @ cs'), lg')))"

section \<open>The table and the statements run against it\<close>

text \<open>
  A row of the vector table (\<^verbatim>\<open>VectorTableModel\<close>; the two timestamps are not read by
  the modelled code), and the table as the list of its rows.
\<close>

record row =
  id_col :: string
  embedding :: "real list"
  document :: string
  meta :: json

text \<open>
  Which rows a predicate selects is decided by SQLAlchemy, which renders the expression
  as the text of a \<^verbatim>\<open>WHERE\<close> clause, and by the database. The comparison of a JSON
  path with a literal is a parameter \<open>leaf\<close> (comparator, path, literal, the row's
  \<^verbatim>\<open>meta\<close>), true when the database's comparison is true (not false and not NULL).

  SQLAlchemy makes one of three things of a call. \<^verbatim>\<open>true()\<close> is a constant;
  \<^verbatim>\<open>and_\<close> leaves it out of its operands and returns it when nothing else is left,
  \<^verbatim>\<open>or_\<close> returns it when it is among the operands. A call \<^verbatim>\<open>and_()\<close> or
  \<^verbatim>\<open>or_()\<close> without arguments gives an empty clause list, which renders no SQL text: as
  an operand it vanishes and the other operands decide, and as the whole predicate it
  leaves the statement without a \<^verbatim>\<open>WHERE\<close> clause. Everything else renders a test.
\<close>

datatype shape = STrue | SBlank | STest

fun shape_of :: "clause \<Rightarrow> shape" where
  "shape_of CTrue = STrue"
| "shape_of (CJson cmp path lit) = STest"
| "shape_of (CIdIn ids) = STest"
| "shape_of (CAnd cs) =
     (if list_ex (\<lambda>c. shape_of c = STest) cs then STest
      else if list_ex (\<lambda>c. shape_of c = SBlank) cs then SBlank
      else if cs = [] then SBlank
      else STrue)"
| "shape_of (COr cs) =
     (if list_ex (\<lambda>c. shape_of c = STrue) cs then STrue
      else if list_ex (\<lambda>c. shape_of c = STest) cs then STest
      else SBlank)"

type_synonym leaf_sem = "comparator \<Rightarrow> string \<Rightarrow> json \<Rightarrow> json \<Rightarrow> bool"

text \<open>
  The rows a predicate selects. An operand that is no test constrains nothing in a
  conjunction; a disjunction is decided by its tests, unless it is the constant or
  renders no text.
\<close>

fun holds :: "leaf_sem \<Rightarrow> clause \<Rightarrow> row \<Rightarrow> bool" where
  "holds leaf CTrue r = True"
| "holds leaf (CAnd cs) r = list_all (\<lambda>c. holds leaf c r) cs"
| "holds leaf (COr cs) r =
     (if shape_of (COr cs) = STest then list_ex (\<lambda>c. shape_of c = STest \<and> holds leaf c r) cs
      else True)"
| "holds leaf (CJson cmp path lit) r = leaf cmp path lit (meta r)"
| "holds leaf (CIdIn ids) r = (id_col r \<in> set ids)"


subsection \<open>Vector search and query\<close>

record query_result =
  qr_id :: string
  qr_document :: string
  qr_metadata :: json
  qr_distance :: real

text \<open>
  The source's bound filters are
  \<^verbatim>\<open>.filter(distance_col >= dis_lower_bound if dis_lower_bound else True)\<close> and
  \<^verbatim>\<open>.filter(distance_col <= dis_upper_bound if dis_upper_bound else True)\<close>:
  a conditional expression on the truth value of the bound. For an
  \<^verbatim>\<open>Optional[float]\<close>, \<^verbatim>\<open>None\<close> and \<^verbatim>\<open>0.0\<close> are false and every other number is true.
\<close>

definition truthy :: "real option \<Rightarrow> bool" where
  "truthy b = (case b of None \<Rightarrow> False | Some x \<Rightarrow> x \<noteq> 0)"

definition lower_bound_filter :: "real option \<Rightarrow> real \<Rightarrow> bool" where
  "lower_bound_filter dis_lower_bound distance =
     (if truthy dis_lower_bound
      then (case dis_lower_bound of Some b \<Rightarrow> distance \<ge> b | None \<Rightarrow> True)
      else True)"

definition upper_bound_filter :: "real option \<Rightarrow> real \<Rightarrow> bool" where
  "upper_bound_filter dis_upper_bound distance =
     (if truthy dis_upper_bound
      then (case dis_upper_bound of Some b \<Rightarrow> distance \<le> b | None \<Rightarrow> True)
      else True)"

text \<open>
  \<^verbatim>\<open>_vector_search\<close>. The distance function of the column type
  (\<^verbatim>\<open>embedding.l2_distance\<close>, from \<^verbatim>\<open>mo_vector.sqlalchemy\<close>) is the parameter \<open>distance_fn\<close>.
  The query filters by the compiled filter and by the two bound filters, orders ascending
  by distance and keeps \<open>k\<close> rows.
\<close>

definition vector_search ::
  "leaf_sem \<Rightarrow> (real list \<Rightarrow> real list \<Rightarrow> real) \<Rightarrow> row list \<Rightarrow> real list \<Rightarrow> nat \<Rightarrow>
   (string \<times> json) list option \<Rightarrow> real option \<Rightarrow> real option \<Rightarrow> log \<Rightarrow>
   (error + query_result list) \<times> log" where
  "vector_search leaf distance_fn tbl query_embedding k filter_arg dis_lower_bound dis_upper_bound lg =
     (case build_filter_clause filter_arg lg of
        (Inl e, lg') \<Rightarrow> (Inl e, lg')
      | (Inr filter_by, lg') \<Rightarrow>
          (let distance_col = (\<lambda>r. distance_fn (embedding r) query_embedding);
               selected =
                 filter (\<lambda>r. upper_bound_filter dis_upper_bound (distance_col r))
                   (filter (\<lambda>r. lower_bound_filter dis_lower_bound (distance_col r))
                      (filter (holds leaf filter_by) tbl));
               results =
                 map (\<lambda>r. \<lparr>qr_id = id_col r, qr_document = document r,
                            qr_metadata = meta r, qr_distance = distance_col r\<rparr>) selected
           in (Inr (take k (sort_key qr_distance results)), lg')))"

text \<open>
  \<^verbatim>\<open>query\<close> passes its arguments to \<^verbatim>\<open>_vector_search\<close> and wraps each row in a
  \<^verbatim>\<open>QueryResult\<close>, the record the rows above already are.
\<close>

definition query ::
  "leaf_sem \<Rightarrow> (real list \<Rightarrow> real list \<Rightarrow> real) \<Rightarrow> row list \<Rightarrow> real list \<Rightarrow> nat \<Rightarrow>
   (string \<times> json) list option \<Rightarrow> real option \<Rightarrow> real option \<Rightarrow> log \<Rightarrow>
   (error + query_result list) \<times> log" where
  "query leaf distance_fn tbl query_vector k filter_arg dis_lower_bound dis_upper_bound lg =
     vector_search leaf distance_fn tbl query_vector k filter_arg dis_lower_bound dis_upper_bound lg"

subsection \<open>Delete\<close>


subsection \<open>Arbitrary statements\<close>

text \<open>
  \<^verbatim>\<open>execute(sql, params)\<close> runs inside \<^verbatim>\<open>try: ... except Exception as e\<close>. What the
  database session does is outside the client, so each step of the \<^verbatim>\<open>try\<close> body is
  a field of an outcome the session gives for the statement: entering the
  \<^verbatim>\<open>with Session(...) as session, session.begin()\<close> block, \<^verbatim>\<open>session.execute\<close>,
  \<^verbatim>\<open>session.commit\<close>, \<^verbatim>\<open>result.fetchall()\<close> and \<^verbatim>\<open>result.rowcount\<close> of the
  cursor, and leaving the block (normally, or with an exception in flight). A step
  that raises carries the exception's message, which is \<^verbatim>\<open>str(e)\<close> in the handler.
\<close>

record 'r cursor =
  fetchall :: "string + 'r list"
  rowcount :: "string + int"

record 'r outcome =
  entered :: "string option"
  executed :: "string + 'r cursor"
  committed :: "string option"
  left_normally :: "string option"
  left_raising :: "string option"

datatype 'r sql_result = Rows "'r list" | RowCount int

text \<open>The dictionary \<^verbatim>\<open>{"success": ..., "result": ..., "error": ...}\<close>.\<close>

record 'r envelope =
  success :: bool
  result :: "'r sql_result option"
  error :: "string option"

text \<open>
  \<^verbatim>\<open>str.strip()\<close> removes the characters for which \<^verbatim>\<open>str.isspace()\<close> holds. Among
  the code points below 256 these are 9 to 13 (tab to carriage return), 28 to 31 (the
  separators), 32 (space), 133 (next line) and 160 (no-break space).
\<close>

definition is_space :: "char \<Rightarrow> bool" where
  "is_space c = ((of_char c :: nat) \<in> set [9, 10, 11, 12, 13, 28, 29, 30, 31, 32, 133, 160])"

definition strip :: "string \<Rightarrow> string" where
  "strip s = rev (dropWhile is_space (rev (dropWhile is_space s)))"

definition startswith :: "string \<Rightarrow> string \<Rightarrow> bool" where
  "startswith s p = (take (length p) s = p)"

text \<open>The \<^verbatim>\<open>try\<close> body up to its \<^verbatim>\<open>return\<close>: the value returned, or the message raised.\<close>

definition execute_body :: "'r outcome \<Rightarrow> string \<Rightarrow> string + 'r envelope" where
  "execute_body out sql =
     (case executed out of
        Inl m \<Rightarrow> Inl m
      | Inr res \<Rightarrow>
          (case committed out of
             Some m \<Rightarrow> Inl m
           | None \<Rightarrow>
               (if startswith (lower (strip sql)) ''select'' then
                  (case fetchall res of
                     Inl m \<Rightarrow> Inl m
                   | Inr rows \<Rightarrow> Inr \<lparr>success = True, result = Some (Rows rows), error = None\<rparr>)
                else
                  (case rowcount res of
                     Inl m \<Rightarrow> Inl m
                   | Inr n \<Rightarrow> Inr \<lparr>success = True, result = Some (RowCount n), error = None\<rparr>))))"

text \<open>
  The whole \<^verbatim>\<open>with\<close> statement: an exception of the body passes through the block's
  exit, which may replace it by its own; a normal return passes through the exit too.
\<close>

definition execute_try :: "'r outcome \<Rightarrow> string \<Rightarrow> string + 'r envelope" where
  "execute_try out sql =
     (case entered out of
        Some m \<Rightarrow> Inl m
      | None \<Rightarrow>
          (case execute_body out sql of
             Inl m \<Rightarrow> (case left_raising out of Some m' \<Rightarrow> Inl m' | None \<Rightarrow> Inl m)
           | Inr env \<Rightarrow> (case left_normally out of Some m' \<Rightarrow> Inl m' | None \<Rightarrow> Inr env)))"

text \<open>
  \<^verbatim>\<open>execute\<close>: the handler turns every exception into the failure dictionary. The
  session is the parameter \<open>db\<close>; the error log line is written to the logger.
\<close>

definition failure :: "string \<Rightarrow> 'r envelope \<times> string list" where
  "failure m =
     (\<lparr>success = False, result = None, error = Some m\<rparr>, [''SQL execution error: '' @ m])"

definition execute ::
  "(string \<Rightarrow> 'p option \<Rightarrow> 'r outcome) \<Rightarrow> string \<Rightarrow> 'p option \<Rightarrow> 'r envelope \<times> string list" where
  "execute db sql params =
     (case execute_try (db sql params) sql of
        Inr env \<Rightarrow> (env, [])
      | Inl m \<Rightarrow> failure m)"

text \<open>
  A session for trying \<open>execute\<close> out: it answers one \<^verbatim>\<open>SELECT\<close> with a row, cannot
  commit an \<^verbatim>\<open>UPDATE\<close>, is disconnected for a \<^verbatim>\<open>DELETE\<close>, and fails every other
  statement.
\<close>

definition demo_db :: "string \<Rightarrow> unit option \<Rightarrow> string outcome" where
  "demo_db sql params =
     (if sql = ''  SELECT 1'' then
        \<lparr>entered = None,
         executed = Inr \<lparr>fetchall = Inr [''1''], rowcount = Inr (- 1)\<rparr>,
         committed = None, left_normally = None, left_raising = None\<rparr>
      else if sql = ''UPDATE t SET a = 1'' then
        \<lparr>entered = None,
         executed = Inr \<lparr>fetchall = Inl ''no rows'', rowcount = Inr 1\<rparr>,
         committed = Some ''deadlock'', left_normally = None, left_raising = None\<rparr>
      else if sql = ''DELETE FROM t'' then
        \<lparr>entered = Some ''connection refused'',
         executed = Inr \<lparr>fetchall = Inl ''no rows'', rowcount = Inr 1\<rparr>,
         committed = None, left_normally = None, left_raising = None\<rparr>
      else
        \<lparr>entered = None, executed = Inl ''no such table'',
         committed = None, left_normally = None, left_raising = None\<rparr>)"

section \<open>Opening a collection: the compatibility check\<close>

text \<open>
  \<^verbatim>\<open>class DistanceStrategy(str, enum.Enum)\<close> has the one member \<^verbatim>\<open>L2 = "l2"\<close>; as a
  \<^verbatim>\<open>str\<close> subclass it compares equal to its value. \<^verbatim>\<open>DistanceStrategy(s)\<close> raises
  \<^verbatim>\<open>ValueError\<close> for a string that is no member's value.
\<close>

datatype DistanceStrategy = L2

definition strategy_value :: "DistanceStrategy \<Rightarrow> string" where
  "strategy_value d = (case d of L2 \<Rightarrow> ''l2'')"

definition DistanceStrategy_of :: "string \<Rightarrow> error + DistanceStrategy" where
  "DistanceStrategy_of s =
     (if s = ''l2'' then Inr L2
      else Inl (ValueError ([CHR 0x27] @ s @ [CHR 0x27] @ '' is not a valid DistanceStrategy'')))"

text \<open>\<^verbatim>\<open>str(n)\<close> of an integer, and of \<^verbatim>\<open>None\<close>, as an f-string interpolates them.\<close>

fun str_nat :: "nat \<Rightarrow> string" where
  "str_nat n =
     (if n < 10 then [''0123456789'' ! n]
      else str_nat (n div 10) @ [''0123456789'' ! (n mod 10)])"

definition str_int :: "int \<Rightarrow> string" where
  "str_int i = (if i < 0 then CHR ''-'' # str_nat (nat (- i)) else str_nat (nat i))"

definition str_opt_int :: "int option \<Rightarrow> string" where
  "str_opt_int i = (case i of None \<Rightarrow> ''None'' | Some n \<Rightarrow> str_int n)"

text \<open>The fields of the client that the check reads and writes.\<close>

record client =
  drop_existing_table :: bool
  vector_dimension :: "int option"
  distance_strategy :: "DistanceStrategy option"

text \<open>The two column definitions the error carries for a dimension mismatch.\<close>

definition vecf64 :: "int option \<Rightarrow> string" where
  "vecf64 d = ''vecf64('' @ str_opt_int d @ '')''"

text \<open>
  And for a metric mismatch:
  \<^verbatim>\<open>f"vecf64({dim}) COMMENT 'hnsw(distance={distance})'"\<close>.
\<close>

definition vecf64_comment :: "int option \<Rightarrow> string \<Rightarrow> string" where
  "vecf64_comment d s =
     vecf64 d @ '' COMMENT '' @ [CHR 0x27] @ ''hnsw(distance='' @ s @ '')'' @ [CHR 0x27]"

text \<open>
  \<^verbatim>\<open>_check_table_compatibility\<close>. \<open>actual\<close> is what
  \<^verbatim>\<open>get_embedding_column_definition\<close> read from the database: the dimension and the
  distance of the stored column, each \<^verbatim>\<open>None\<close> when unknown. How the f-string prints
  the requested strategy depends on the Python version (the member's value before 3.11,
  its name from then on), so it is the parameter \<open>fmt\<close>. The result is the client with
  the fields the check has filled in, or the exception.
\<close>

definition check_dimension :: "int option \<Rightarrow> client \<Rightarrow> error + client" where
  "check_dimension actual_dim self =
     (case actual_dim of
        None \<Rightarrow> Inr self
      | Some a \<Rightarrow>
          (case vector_dimension self of
             None \<Rightarrow> Inr (self\<lparr>vector_dimension := Some a\<rparr>)
           | Some v \<Rightarrow>
               if a \<noteq> v then
                 Inl (EmbeddingColumnMismatchError (vecf64 (Some a)) (vecf64 (Some v)))
               else Inr self))"

definition check_distance ::
  "(DistanceStrategy \<Rightarrow> string) \<Rightarrow> int option \<Rightarrow> string option \<Rightarrow> client \<Rightarrow> error + client" where
  "check_distance fmt actual_dim actual_distance_strategy self =
     (case actual_distance_strategy of
        None \<Rightarrow> Inr self
      | Some a \<Rightarrow>
          (case distance_strategy self of
             None \<Rightarrow>
               (case DistanceStrategy_of a of
                  Inl e \<Rightarrow> Inl e
                | Inr d \<Rightarrow> Inr (self\<lparr>distance_strategy := Some d\<rparr>))
           | Some d \<Rightarrow>
               if a \<noteq> strategy_value d then
                 Inl (EmbeddingColumnMismatchError
                        (vecf64_comment actual_dim a)
                        (vecf64_comment (vector_dimension self) (fmt d)))
               else Inr self))"

definition check_table_compatibility ::
  "(DistanceStrategy \<Rightarrow> string) \<Rightarrow> int option \<times> string option \<Rightarrow> client \<Rightarrow> error + client" where
  "check_table_compatibility fmt actual self =
     (if drop_existing_table self then Inr self
      else
        (case actual of
           (actual_dim, actual_distance_strategy) \<Rightarrow>
             (case check_dimension actual_dim self of
                Inl e \<Rightarrow> Inl e
              | Inr self' \<Rightarrow> check_distance fmt actual_dim actual_distance_strategy self')))"

section \<open>What the fusions are specified to compute\<close>

text \<open>
  The distinct items of a list in the order of their first occurrence.
\<close>

definition first_seen :: "'a list \<Rightarrow> 'a list" where
  "first_seen xs = rev (remdups (rev xs))"

text \<open>
  A list of (contribution, item) pairs in the order the loops meet them; the
  contributions it holds for one item, in that order; and their sum, added up from the
  left as a dictionary entry is: float addition is not associative, so the order is part
  of the sum.
\<close>

definition contributions_of :: "(real \<times> 'a) list \<Rightarrow> 'a \<Rightarrow> real list" where
  "contributions_of cs t = map fst (filter (\<lambda>p. snd p = t) cs)"

fun sum_in_order :: "real list \<Rightarrow> real" where
  "sum_in_order [] = 0"
| "sum_in_order (x # xs) = foldl float_add x xs"

text \<open>
  The contributions of reciprocal rank fusion: the double \<open>1 / (c + r)\<close> for the item
  at the 1-based rank \<open>r\<close> of a list, the first list before the second; and the
  accumulated score of an item.
\<close>

definition rrf_contributions :: "int \<Rightarrow> 'a list \<Rightarrow> 'a list \<Rightarrow> (real \<times> 'a) list" where
  "rrf_contributions c v f =
     map (\<lambda>(r, t). (rnd (1 / real_of_int (c + int r)), t)) (enumerate1 v @ enumerate1 f)"

definition rrf_score :: "int \<Rightarrow> 'a list \<Rightarrow> 'a list \<Rightarrow> 'a \<Rightarrow> real" where
  "rrf_score c v f t = sum_in_order (contributions_of (rrf_contributions c v f) t)"

text \<open>
  The fused ranking for a score function: every distinct item of the two lists once, with its score,
  sorted descending by score by a stable sort, so that items of equal score stay in first-seen order
  (first list before second, earlier rank before later).
\<close>

definition fused :: "('a \<Rightarrow> real) \<Rightarrow> 'a list \<Rightarrow> 'a list \<Rightarrow> (real \<times> 'a) list" where
  "fused score v f = sort_key (\<lambda>(s, t). - s) (map (\<lambda>t. (score t, t)) (first_seen (v @ f)))"

text \<open>
  The loop body of both fusions applied to a list of (contribution, item) pairs.
\<close>

definition accumulate :: "(real \<times> 'a) list \<Rightarrow> 'a score_dict \<Rightarrow> 'a score_dict" where
  "accumulate cs d = fold (\<lambda>(s, t). dict_add t s) cs d"

section \<open>The arctangent of a C library\<close>

text \<open>
  The arctangent that returns the double nearest to the exact value. The C library of
  GNU/Linux returns these doubles at the arguments used below (0, 1, 2, \<open>10\<^sup>1\<^sup>6\<close>,
  \<open>10\<^sup>1\<^sup>7\<close> and their negatives).
\<close>

definition correctly_rounded_atan :: "real \<Rightarrow> real" where
  "correctly_rounded_atan x = rnd (arctan x)"

text \<open>
  A C library whose arctangent of -2 is one unit in the last place further from zero,
  and correctly rounded elsewhere.
\<close>

definition other_atan :: "real \<Rightarrow> real" where
  "other_atan x = (if x = - 2 then - (4986154552901189 / 2 ^ 52) else correctly_rounded_atan x)"

text \<open>
  The first \<open>n\<close> terms of the arctangent series, for enclosing \<open>\<pi>\<close> and the
  arctangent of 2 between decimals.
\<close>

definition arctan_partial :: "real \<Rightarrow> nat \<Rightarrow> real" where
  "arctan_partial x n = (\<Sum>i<n. (- 1) ^ i * (1 / real (i * 2 + 1) * x ^ (i * 2 + 1)))"

section \<open>What a combinator of the filter compiler is specified to combine\<close>



section \<open>Properties of the rounding\<close>

lemma round_half_even_of_int [simp]: "round_half_even (of_int n) = n"
  by (simp add: round_half_even_def)

lemma round_half_even_mono: "x \<le> y \<Longrightarrow> round_half_even x \<le> round_half_even y"
proof -
  assume xy: "x \<le> y"
  have fl: "\<lfloor>x\<rfloor> \<le> \<lfloor>y\<rfloor>" using xy by (rule floor_mono)
  show ?thesis
  proof (cases "\<lfloor>x\<rfloor> = \<lfloor>y\<rfloor>")
    case True
    then show ?thesis using xy
      unfolding round_half_even_def Let_def by auto
  next
    case False
    with fl have "\<lfloor>x\<rfloor> + 1 \<le> \<lfloor>y\<rfloor>" by simp
    moreover have "round_half_even x \<le> \<lfloor>x\<rfloor> + 1"
      unfolding round_half_even_def Let_def by auto
    moreover have "\<lfloor>y\<rfloor> \<le> round_half_even y"
      unfolding round_half_even_def Let_def by auto
    ultimately show ?thesis by linarith
  qed
qed

lemma round_half_even_unique:
  "of_int k - 1 / 2 < x \<Longrightarrow> x < of_int k + 1 / 2 \<Longrightarrow> round_half_even x = k"
  unfolding round_half_even_def Let_def
  by (auto; linarith)

lemma ulp_pos: "0 < ulp x"
  by (simp add: ulp_def)

lemma ulp_minus [simp]: "ulp (- x) = ulp x"
  by (simp add: ulp_def exponent_def)

lemma rnd_minus: "rnd (- x) = - rnd x"
  by (simp add: rnd_def)

lemma rnd_zero [simp]: "rnd 0 = 0"
  by (simp add: rnd_def)

lemma rnd_pos: "0 < x \<Longrightarrow> rnd x = of_int (round_half_even (x / ulp x)) * ulp x"
  by (simp add: rnd_def)

lemma round_half_even_range:
  "of_int (round_half_even x) - 1 / 2 \<le> x \<and> x \<le> of_int (round_half_even x) + 1 / 2"
  unfolding round_half_even_def Let_def by (auto; linarith)

text \<open>The rounding is to a nearest double: the error is at most half the spacing.\<close>

lemma rnd_nearest_pos:
  assumes "0 < x"
  shows "\<bar>rnd x - x\<bar> \<le> ulp x / 2"
proof -
  let ?k = "real_of_int (round_half_even (x / ulp x))"
  have u: "0 < ulp x" by (rule ulp_pos)
  have "?k - 1 / 2 \<le> x / ulp x" "x / ulp x \<le> ?k + 1 / 2"
    using round_half_even_range [of "x / ulp x"] by simp_all
  then have "(?k - 1 / 2) * ulp x \<le> x" "x \<le> (?k + 1 / 2) * ulp x"
    using u by (simp_all add: pos_le_divide_eq pos_divide_le_eq)
  then have "?k * ulp x - x \<le> ulp x / 2" "- (ulp x / 2) \<le> ?k * ulp x - x"
    by (simp_all add: algebra_simps)
  then have "\<bar>?k * ulp x - x\<bar> \<le> ulp x / 2"
    by linarith
  then show ?thesis unfolding rnd_pos [OF assms] .
qed

lemma rnd_nearest: "\<bar>rnd x - x\<bar> \<le> ulp x / 2"
proof -
  consider "x = 0" | "0 < x" | "0 < - x" by linarith
  then show ?thesis
  proof cases
    case 1
    then show ?thesis using ulp_pos [of 0] by simp
  next
    case 2
    then show ?thesis by (rule rnd_nearest_pos)
  next
    case 3
    then have "\<bar>rnd (- x) - (- x)\<bar> \<le> ulp (- x) / 2" by (rule rnd_nearest_pos)
    then show ?thesis by (simp add: rnd_minus abs_minus_commute)
  qed
qed

lemma exponent_eq:
  assumes "2 powi e \<le> \<bar>x\<bar>" "\<bar>x\<bar> < 2 powi (e + 1)" "- 1022 \<le> e"
  shows "exponent x = e"
proof -
  have x: "0 < \<bar>x\<bar>" using assms(1) by (smt (verit) zero_less_power_int)
  have p: "(2 :: real) powr (of_int k) = 2 powi k" for k
    by (rule powr_real_of_int') simp_all
  have "\<lfloor>log 2 \<bar>x\<bar>\<rfloor> = e"
    using floor_log_eq_powr_iff [of "\<bar>x\<bar>" 2 e] x assms(1,2) p [of e] p [of "e + 1"] by simp
  then show ?thesis using assms(3) by (simp add: exponent_def)
qed

text \<open>
  Rounding a positive number of the binade \<open>[2\<^sup>-\<^sup>n, 2\<^sup>1\<^sup>-\<^sup>n)\<close>: scale to a significand
  of 53 bits, round to an integer, scale back.
\<close>

lemma rnd_at:
  assumes "0 < x" "1 \<le> x * 2 ^ n" "x * 2 ^ n < 2" "n \<le> 1022"
  shows "rnd x = of_int (round_half_even (x * 2 ^ (n + 52))) / 2 ^ (n + 52)"
proof -
  have p: "(2 :: real) powi (- int n) = 1 / 2 ^ n"
    by (simp add: power_int_minus field_simps)
  have "(2 :: real) powi (- int n + 1) = 2 powi (- int n) * 2 powi 1"
    by (rule power_int_add) simp
  then have p1: "(2 :: real) powi (- int n + 1) = 2 / 2 ^ n"
    unfolding p by simp
  have "exponent x = - int n"
  proof (rule exponent_eq)
    show "2 powi (- int n) \<le> \<bar>x\<bar>" unfolding p using assms(1,2) by (simp add: field_simps)
    show "\<bar>x\<bar> < 2 powi (- int n + 1)" unfolding p1 using assms(1,3) by (simp add: field_simps)
    show "- 1022 \<le> - int n" using assms(4) by simp
  qed
  then have u: "ulp x = 1 / 2 ^ (n + 52)"
    unfolding ulp_def
    by (simp add: power_int_diff power_int_minus power_add field_simps)
  show ?thesis unfolding rnd_pos [OF assms(1)] u by simp
qed

lemma rnd_at_unique:
  assumes "0 < x" "1 \<le> x * 2 ^ n" "x * 2 ^ n < 2" "n \<le> 1022"
    and "of_int k - 1 / 2 < x * 2 ^ (n + 52)" "x * 2 ^ (n + 52) < of_int k + 1 / 2"
  shows "rnd x = of_int k / 2 ^ (n + 52)"
  unfolding rnd_at [OF assms(1-4)] round_half_even_unique [OF assms(5,6)] ..

lemma rnd_two: "rnd 2 = 2"
proof -
  have e: "exponent 2 = 1"
    by (rule exponent_eq) simp_all
  have u: "ulp 2 = 1 / 2 ^ 51"
    unfolding ulp_def e by (simp add: power_int_minus field_simps)
  have "(2 :: real) / (1 / 2 ^ 51) = of_int (2 ^ 52)" by simp
  then have "round_half_even (2 / (1 / 2 ^ 51)) = 2 ^ 52"
    by (simp only: round_half_even_of_int)
  then show ?thesis
    unfolding rnd_pos [of 2, simplified] u by simp
qed

lemma rnd_six_tenths: "rnd (6 / 10) = 5404319552844595 / 2 ^ 53"
  by (subst rnd_at [where n = 1]) (simp_all add: round_half_even_def)

lemma rnd_four_tenths: "rnd (4 / 10) = 3602879701896397 / 2 ^ 53"
  by (subst rnd_at [where n = 2]) (simp_all add: round_half_even_def)

lemma rnd_lit_015: "rnd 0.15 = 5404319552844595 / 2 ^ 55"
  by (subst rnd_at [where n = 3]) (simp_all add: round_half_even_def)

lemma rnd_lit_01: "rnd 0.1 = 3602879701896397 / 2 ^ 55"
  by (subst rnd_at [where n = 4]) (simp_all add: round_half_even_def)

lemma rnd_lit_glibc2: "rnd 0.08855017059025995 = 6380712244382217 / 2 ^ 56"
  by (subst rnd_at [where n = 4]) (simp_all add: round_half_even_def)

lemma rnd_lit_glibc4: "rnd 0.05903344706017331 = 8507616325842957 / 2 ^ 57"
  by (subst rnd_at [where n = 5]) (simp_all add: round_half_even_def)

lemma rnd_lit_claim2: "rnd 0.08855017059025992 = 6380712244382215 / 2 ^ 56"
  by (subst rnd_at [where n = 4]) (simp_all add: round_half_even_def)

lemma rnd_lit_claim4: "rnd 0.059033447060173286 = 4253808162921477 / 2 ^ 56"
  by (subst rnd_at [where n = 5]) (simp_all add: round_half_even_def)

lemma rnd_61: "rnd (1 / 61) = 4725088133634619 / 2 ^ 58"
  by (subst rnd_at [where n = 6]) (simp_all add: round_half_even_def)

lemma rnd_62: "rnd (1 / 62) = 1162219258676257 / 2 ^ 56"
  by (subst rnd_at [where n = 6]) (simp_all add: round_half_even_def)

lemma rnd_tie1: "rnd (1 / 1073741825) = 1073741823 / 2 ^ 60"
  by (subst rnd_at [where n = 31]) (simp_all add: round_half_even_def)

lemma rnd_tie2: "rnd (1 / 1073741826) = 536870911 / 2 ^ 59"
  by (subst rnd_at [where n = 31]) (simp_all add: round_half_even_def)

lemma rnd_tie3: "rnd (1 / 1073741827) = 1073741821 / 2 ^ 60"
  by (subst rnd_at [where n = 31]) (simp_all add: round_half_even_def)

lemma rnd_one: "rnd 1 = 1"
  by (subst rnd_at [where n = 0]) (simp_all add: round_half_even_def)

lemma rnd_half: "rnd (1 / 2) = 1 / 2"
  by (subst rnd_at [where n = 1]) (simp_all add: round_half_even_def)

lemma rnd_quarter: "rnd (1 / 4) = 1 / 4"
  by (subst rnd_at [where n = 2]) (simp_all add: round_half_even_def)

lemma rnd_three_quarters: "rnd (3 / 4) = 3 / 4"
  by (subst rnd_at [where n = 1]) (simp_all add: round_half_even_def)

lemma rnd_three_halves: "rnd (3 / 2) = 3 / 2"
  by (subst rnd_at [where n = 0]) (simp_all add: round_half_even_def)


section \<open>Properties of the rerank engine\<close>

subsection \<open>The score dictionary after the loops\<close>

lemma first_seen_snoc:
  "first_seen (xs @ [x]) = (if x \<in> set xs then first_seen xs else first_seen xs @ [x])"
  by (simp add: first_seen_def)

lemma set_first_seen [simp]: "set (first_seen xs) = set xs"
  by (simp add: first_seen_def)

lemma distinct_first_seen [simp]: "distinct (first_seen xs)"
  by (simp add: first_seen_def)

lemma contributions_of_snoc:
  "contributions_of (cs @ [(s, t)]) u = contributions_of cs u @ (if t = u then [s] else [])"
  by (simp add: contributions_of_def)

lemma contributions_of_absent: "u \<notin> snd ` set cs \<Longrightarrow> contributions_of cs u = []"
  by (induction cs) (auto simp: contributions_of_def)

lemma contributions_of_present: "u \<in> snd ` set cs \<Longrightarrow> contributions_of cs u \<noteq> []"
  by (induction cs) (auto simp: contributions_of_def)

lemma contributions_of_append:
  "contributions_of (cs @ cs') t = contributions_of cs t @ contributions_of cs' t"
  by (simp add: contributions_of_def)

lemma sum_in_order_snoc: "xs \<noteq> [] \<Longrightarrow> sum_in_order (xs @ [s]) = float_add (sum_in_order xs) s"
  by (cases xs) simp_all

lemma dict_add_map:
  "distinct ks \<Longrightarrow>
   dict_add t s (map (\<lambda>u. (u, g u)) ks) =
     (if t \<in> set ks then map (\<lambda>u. (u, if u = t then float_add (g u) s else g u)) ks
      else map (\<lambda>u. (u, g u)) ks @ [(t, s)])"
  by (induction ks) auto

lemma accumulate_closed:
  "accumulate cs [] = map (\<lambda>t. (t, sum_in_order (contributions_of cs t))) (first_seen (map snd cs))"
proof (induction cs rule: rev_induct)
  case Nil
  show ?case by (simp add: accumulate_def first_seen_def)
next
  case (snoc x cs)
  obtain s t where x: "x = (s, t)" by (cases x)
  have step: "accumulate (cs @ [x]) [] = dict_add t s (accumulate cs [])"
    by (simp add: accumulate_def x)
  show ?case
  proof (cases "t \<in> set (map snd cs)")
    case True
    then have ne: "contributions_of cs t \<noteq> []"
      by (simp add: contributions_of_present)
    from True show ?thesis
      unfolding step snoc.IH
      by (simp add: dict_add_map first_seen_snoc x contributions_of_snoc sum_in_order_snoc [OF ne])
  next
    case False
    then have "contributions_of cs t = []" by (simp add: contributions_of_absent)
    with False show ?thesis
      unfolding step snoc.IH
      by (auto simp add: dict_add_map first_seen_snoc x contributions_of_snoc)
  qed
qed

lemma rrf_loop_accumulate:
  "\<forall>(r, t) \<in> set rs. c + int r \<noteq> 0 \<Longrightarrow>
   rrf_loop c rs d = Inr (accumulate (map (\<lambda>(r, t). (rnd (1 / real_of_int (c + int r)), t)) rs) d)"
  by (induction rs arbitrary: d) (auto simp: accumulate_def int_truediv_def)

lemma accumulate_append: "accumulate (cs @ cs') d = accumulate cs' (accumulate cs d)"
  by (simp add: accumulate_def)

lemma snd_map_contribution: "map snd (map (\<lambda>(r, t). (g r, t)) rs) = map snd rs"
  by (induction rs) auto

lemma snd_enumerate1: "map snd (enumerate1 xs) = xs"
proof -
  have "length [1..<Suc (length xs)] = length xs" unfolding length_upt by simp
  then show ?thesis unfolding enumerate1_def by (rule map_snd_zip)
qed

lemma fst_enumerate1: "(r, t) \<in> set (enumerate1 xs) \<Longrightarrow> 1 \<le> r \<and> r \<le> length xs"
  by (auto simp: enumerate1_def dest!: set_zip_leftD)

lemma sort_key_swap:
  "map (\<lambda>(t, s). (s, t)) (sort_key (\<lambda>(t, s). - s) d) =
   sort_key (\<lambda>(s :: real, t). - s) (map (\<lambda>(t, s). (s, t)) d)"
proof (induction d)
  case Nil show ?case by simp
next
  case (Cons a d)
  have ins: "\<And>xs. map (\<lambda>(t, s). (s, t)) (insort_key (\<lambda>(t, s). - s) a xs) =
      insort_key (\<lambda>(s :: real, t). - s) ((\<lambda>(t, s). (s, t)) a) (map (\<lambda>(t, s). (s, t)) xs)"
    subgoal for xs by (induction xs) (auto simp: case_prod_unfold)
    done
  show ?case using Cons by (simp add: ins)
qed

lemma top_k_fused:
  "0 \<le> k \<Longrightarrow> top_k k (map (\<lambda>t. (t, score t)) ks) =
     take (nat k) (sort_key (\<lambda>(s, t). - s) (map (\<lambda>t. (score t, t)) ks))"
proof -
  assume k: "0 \<le> k"
  have "map (\<lambda>(t, s). (s, t)) (map (\<lambda>t. (t, score t)) ks) = map (\<lambda>t. (score t, t)) ks"
    by simp
  then show ?thesis
    using k by (simp add: top_k_def slice_to_def sorted_desc_def sort_key_swap comp_def flip: take_map)
qed

lemma rrf_rerank_closed:
  assumes nz: "\<forall>r. 1 \<le> r \<and> r \<le> max (length v) (length f) \<longrightarrow> c + int r \<noteq> 0"
    and k: "0 \<le> k"
  shows "rrf_rerank v f k c = Inr (take (nat k) (fused (rrf_score c v f) v f))"
proof -
  let ?g = "\<lambda>(r, t). (rnd (1 / real_of_int (c + int r)), t)"
  have nzv: "\<forall>(r, t) \<in> set (enumerate1 v). c + int r \<noteq> 0"
    using nz by (auto dest!: fst_enumerate1)
  have nzf: "\<forall>(r, t) \<in> set (enumerate1 f). c + int r \<noteq> 0"
    using nz by (auto dest!: fst_enumerate1)
  have "rrf_rerank v f k c =
        Inr (top_k k (accumulate (map ?g (enumerate1 v @ enumerate1 f)) []))"
    by (simp add: rrf_rerank_def rrf_loop_accumulate [OF nzv] rrf_loop_accumulate [OF nzf]
        accumulate_append)
  also have "accumulate (map ?g (enumerate1 v @ enumerate1 f)) [] =
      map (\<lambda>t. (t, rrf_score c v f t)) (first_seen (v @ f))"
    unfolding accumulate_closed rrf_score_def rrf_contributions_def
    by (simp only: snd_enumerate1 map_append snd_map_contribution)
  finally show ?thesis
    using k by (simp add: top_k_fused fused_def)
qed

lemma fused_sorted: "sorted_wrt (\<lambda>p q. fst p \<ge> fst q) (fused score v f)"
proof -
  have "sorted (map (\<lambda>(s, t). - s) (fused score v f))"
    unfolding fused_def by (rule sorted_sort_key)
  then show ?thesis
    by (simp add: sorted_map sorted_wrt_iff_nth_less case_prod_unfold)
qed

lemma fused_stable:
  "filter (\<lambda>p. fst p = s) (fused score v f) =
   filter (\<lambda>p. fst p = s) (map (\<lambda>t. (score t, t)) (first_seen (v @ f)))"
proof -
  have "filter (\<lambda>p. (case p of (s, t) \<Rightarrow> - s) = - s) (fused score v f) =
        filter (\<lambda>p. (case p of (s, t) \<Rightarrow> - s) = - s) (map (\<lambda>t. (score t, t)) (first_seen (v @ f)))"
    unfolding fused_def by (rule sort_key_stable)
  then show ?thesis by (simp add: case_prod_unfold)
qed

lemma dict_add_keys:
  "map fst (dict_add t s d) = (if t \<in> set (map fst d) then map fst d else map fst d @ [t])"
  by (induction d) force+

lemma dict_add_distinct: "distinct (map fst d) \<Longrightarrow> distinct (map fst (dict_add t s d))"
  by (simp add: dict_add_keys)

lemma rrf_loop_distinct:
  "rrf_loop c rs d = Inr d' \<Longrightarrow> distinct (map fst d) \<Longrightarrow> distinct (map fst d')"
  by (induction rs arbitrary: d) (auto split: if_splits sum.splits simp: dict_add_distinct)

lemma weighted_loop_distinct:
  "weighted_loop ma ws rs d = Inr d' \<Longrightarrow> distinct (map fst d) \<Longrightarrow> distinct (map fst d')"
  by (induction rs arbitrary: d) (auto split: if_splits sum.splits simp: dict_add_distinct Let_def)

lemma weighted_loop_total: "\<exists>d'. weighted_loop ma [w0, w1] rs d = Inr d'"
  by (induction rs arbitrary: d) (auto simp: index_def Let_def)

lemma top_k_items: "map snd (top_k k d) = map fst (slice_to k (sorted_desc d))"
  by (simp add: top_k_def case_prod_unfold)

lemma top_k_distinct: "distinct (map fst d) \<Longrightarrow> distinct (map snd (top_k k d))"
proof -
  assume d: "distinct (map fst d)"
  have "distinct (map fst (sorted_desc d))"
    using d by (simp add: sorted_desc_def distinct_map)
  then have "distinct (take n (map fst (sorted_desc d)))" for n
    by (rule distinct_take)
  then show ?thesis
    by (simp add: top_k_items slice_to_def take_map)
qed

lemma top_k_length: "0 \<le> k \<Longrightarrow> length (top_k k d) \<le> nat k"
  by (simp add: top_k_def slice_to_def)

lemma float_add_62_61:
  "float_add (1162219258676257 / 2 ^ 56) (4725088133634619 / 2 ^ 58) = 146468205755307 / 2 ^ 52"
  unfolding float_add_def
  by (subst rnd_at [where n = 5]) (simp_all add: round_half_even_def)

lemma float_add_tie_b:
  "float_add (536870911 / 2 ^ 59) (536870911 / 2 ^ 59) = 536870911 / 2 ^ 58"
  unfolding float_add_def
  by (subst rnd_at [where n = 30]) (simp_all add: round_half_even_def)

lemma float_add_tie_a:
  "float_add (1073741821 / 2 ^ 60) (1073741823 / 2 ^ 60) = 536870911 / 2 ^ 58"
  unfolding float_add_def
  by (subst rnd_at [where n = 30]) (simp_all add: round_half_even_def)

lemma rrf_example:
  "rrf_rerank [''doc1'', ''doc2''] [''doc3'', ''doc4''] 4 60 =
     Inr [(rnd (1 / 61), ''doc1''), (rnd (1 / 61), ''doc3''),
          (rnd (1 / 62), ''doc2''), (rnd (1 / 62), ''doc4'')]"
proof -
  have d: "rrf_loop 60 (enumerate1 [''doc3'', ''doc4''])
             [(''doc1'', rnd (1 / 61)), (''doc2'', rnd (1 / 62))] =
           Inr [(''doc1'', rnd (1 / 61)), (''doc2'', rnd (1 / 62)),
                (''doc3'', rnd (1 / 61)), (''doc4'', rnd (1 / 62))]"
    by (simp add: enumerate1_def upt_rec int_truediv_def)
  have v: "rrf_loop 60 (enumerate1 [''doc1'', ''doc2'']) [] =
           Inr [(''doc1'', rnd (1 / 61)), (''doc2'', rnd (1 / 62))]"
    by (simp add: enumerate1_def upt_rec int_truediv_def)
  have s: "sorted_desc [(''doc1'', rnd (1 / 61)), (''doc2'', rnd (1 / 62)),
                (''doc3'', rnd (1 / 61)), (''doc4'', rnd (1 / 62))] =
           [(''doc1'', rnd (1 / 61)), (''doc3'', rnd (1 / 61)),
            (''doc2'', rnd (1 / 62)), (''doc4'', rnd (1 / 62))]"
    unfolding rnd_61 rnd_62 by (simp add: sorted_desc_def)
  show ?thesis
    unfolding rrf_rerank_def v d sum.case top_k_def s by (simp add: slice_to_def)
qed

lemma rrf_tie_example:
  "rrf_rerank [''p'', ''b'', ''a''] [''a'', ''b''] 3 (2 ^ 30) =
     Inr [(536870911 / 2 ^ 58, ''b''), (536870911 / 2 ^ 58, ''a''), (1073741823 / 2 ^ 60, ''p'')]"
proof -
  have v: "rrf_loop (2 ^ 30) (enumerate1 [''p'', ''b'', ''a'']) [] =
           Inr [(''p'', rnd (1 / 1073741825)), (''b'', rnd (1 / 1073741826)),
                (''a'', rnd (1 / 1073741827))]"
    by (simp add: enumerate1_def upt_rec int_truediv_def)
  have d: "rrf_loop (2 ^ 30) (enumerate1 [''a'', ''b''])
             [(''p'', rnd (1 / 1073741825)), (''b'', rnd (1 / 1073741826)),
              (''a'', rnd (1 / 1073741827))] =
           Inr [(''p'', rnd (1 / 1073741825)),
                (''b'', float_add (rnd (1 / 1073741826)) (rnd (1 / 1073741826))),
                (''a'', float_add (rnd (1 / 1073741827)) (rnd (1 / 1073741825)))]"
    by (simp add: enumerate1_def upt_rec int_truediv_def)
  have s: "sorted_desc [(''p'', rnd (1 / 1073741825)),
                (''b'', float_add (rnd (1 / 1073741826)) (rnd (1 / 1073741826))),
                (''a'', float_add (rnd (1 / 1073741827)) (rnd (1 / 1073741825)))] =
           [(''b'', 536870911 / 2 ^ 58), (''a'', 536870911 / 2 ^ 58), (''p'', 1073741823 / 2 ^ 60)]"
    unfolding rnd_tie1 rnd_tie2 rnd_tie3 float_add_tie_a float_add_tie_b
    by (simp add: sorted_desc_def)
  show ?thesis
    unfolding rrf_rerank_def v d sum.case top_k_def s by (simp add: slice_to_def)
qed

subsection \<open>Reciprocal rank fusion\<close>

text \<open>
  Claim C2, as amended. For input lists \<open>v\<close> and \<open>f\<close>, \<open>k \<ge> 0\<close> and a rank constant
  \<open>c\<close> with \<open>c + r \<noteq> 0\<close> for every rank \<open>r\<close> of either list (every \<open>c \<ge> 0\<close> is one),
  \<^verbatim>\<open>rrf_rerank\<close> returns the first \<open>k\<close> entries of the fused ranking: every distinct
  item once, with the float sum, in the order of the lists, of the doubles \<open>1 / (c + r)\<close>
  over the 1-based ranks \<open>r\<close> it has in the two lists, sorted descending by that score,
  items of equal score in first-seen order, as (score, item) pairs. For the lists doc1,
  doc2 and doc3, doc4 with \<open>c = 60\<close> and \<open>k = 4\<close> the result is 1/61 doc1, 1/61
  doc3, 1/62 doc2, 1/62 doc4, the scores being the doubles Python writes that way. Scores
  that differ as real numbers can round to the same double and then count as equal: with
  \<open>c = 2\<^sup>3\<^sup>0\<close> the lists p, b, a and a, b give b before a.
\<close>

theorem rrf_rerank_fuses:
  "((\<forall>r. 1 \<le> r \<and> r \<le> max (length v) (length f) \<longrightarrow> c + int r \<noteq> 0) \<and> 0 \<le> k \<longrightarrow>
      rrf_rerank v f k c = Inr (take (nat k) (fused (rrf_score c v f) v f)) \<and>
      sorted_wrt (\<lambda>p q. fst p \<ge> fst q) (fused (rrf_score c v f) v f) \<and>
      (\<forall>s. filter (\<lambda>p. fst p = s) (fused (rrf_score c v f) v f) =
           filter (\<lambda>p. fst p = s) (map (\<lambda>t. (rrf_score c v f t, t)) (first_seen (v @ f))))) \<and>
   rrf_rerank [''doc1'', ''doc2''] [''doc3'', ''doc4''] 4 60 =
     Inr [(rnd (1 / 61), ''doc1''), (rnd (1 / 61), ''doc3''),
          (rnd (1 / 62), ''doc2''), (rnd (1 / 62), ''doc4'')] \<and>
   rrf_rerank [''p'', ''b'', ''a''] [''a'', ''b''] 3 (2 ^ 30) =
     Inr [(536870911 / 2 ^ 58, ''b''), (536870911 / 2 ^ 58, ''a''), (1073741823 / 2 ^ 60, ''p'')]"
  using rrf_example rrf_tie_example rrf_rerank_closed [of v f c k]
    fused_sorted [of "rrf_score c v f" v f] fused_stable [of _ "rrf_score c v f" v f]
  by blast

theorem rrf_rerank_fuses_witness:
  "(0 :: int) \<le> 2 \<and>
   rrf_rerank [''a'', ''b''] [''b'', ''c''] 2 60 =
     Inr [(146468205755307 / 2 ^ 52, ''b''), (4725088133634619 / 2 ^ 58, ''a'')] \<and>
   float_add (rnd (1 / 62)) (rnd (1 / 61)) = 146468205755307 / 2 ^ 52 \<and>
   rnd (1 / 61) = 4725088133634619 / 2 ^ 58"
proof -
  have nz: "\<forall>r. 1 \<le> r \<and> r \<le> max (length [''a'', ''b'']) (length [''b'', ''c'']) \<longrightarrow> 60 + int r \<noteq> 0"
    by simp
  have k: "(0 :: int) \<le> 2" by simp
  have sc0: "rrf_score 60 [''a'', ''b''] [''b'', ''c''] ''a'' = rnd (1 / 61)"
    "rrf_score 60 [''a'', ''b''] [''b'', ''c''] ''b'' = float_add (rnd (1 / 62)) (rnd (1 / 61))"
    "rrf_score 60 [''a'', ''b''] [''b'', ''c''] ''c'' = rnd (1 / 62)"
    unfolding rrf_score_def rrf_contributions_def
    by (simp_all add: contributions_of_def enumerate1_def upt_rec)
  note sc = sc0 [unfolded rnd_61 rnd_62 float_add_62_61]
  have "rrf_rerank [''a'', ''b''] [''b'', ''c''] 2 60 =
      Inr (take (nat 2) (fused (rrf_score 60 [''a'', ''b''] [''b'', ''c'']) [''a'', ''b''] [''b'', ''c'']))"
    using rrf_rerank_fuses [of "[''a'', ''b'']" "[''b'', ''c'']" 60 2] nz k by blast
  also have "\<dots> = Inr [(146468205755307 / 2 ^ 52, ''b''), (4725088133634619 / 2 ^ 58, ''a'')]"
    unfolding fused_def by (simp add: first_seen_def sc)
  finally have r: "rrf_rerank [''a'', ''b''] [''b'', ''c''] 2 60 =
     Inr [(146468205755307 / 2 ^ 52, ''b''), (4725088133634619 / 2 ^ 58, ''a'')]" .
  have s: "float_add (rnd (1 / 62)) (rnd (1 / 61)) = 146468205755307 / 2 ^ 52"
    unfolding rnd_61 rnd_62 by (rule float_add_62_61)
  from k r s rnd_61 show ?thesis by blast
qed

text \<open>
  The claim as stated, for every rank constant, fails at \<open>c = -1\<close>: the first rank
  divides by zero and the call raises instead of returning a ranking.
\<close>

theorem rrf_rerank_zero_division:
  "rrf_rerank [''doc1''] [] 1 (- 1) = Inl ZeroDivisionError"
  by (simp add: rrf_rerank_def enumerate1_def int_truediv_def)

subsection \<open>Dispatch: deduplication and length\<close>

text \<open>
  Claim C4, as amended. With \<open>k \<ge> 0\<close>, a list of (score, item) pairs returned by
  \<^verbatim>\<open>rerank_data\<close> (the RRF and WeightedRank branches) holds each item at most once and
  has at most \<open>k\<close> entries. A list returned by the fallback branch holds each item at
  most once and is the union of the two lists; its length is the number of distinct
  items, whatever \<open>k\<close> is. The fallback branch returns for every type other than the two
  names, the RRF branch for every rank constant \<open>c \<ge> 0\<close>, the WeightedRank branch for
  every weight pair. None of this depends on the C library's arctangent.
\<close>

theorem rerank_data_dedup:
  "(\<forall>res. 0 \<le> k \<and> rerank_data math_atan v f k opt = Inr (Scored res) \<longrightarrow>
       distinct (map snd res) \<and> length res \<le> nat k) \<and>
   (\<forall>res. rerank_data math_atan v f k opt = Inr (Plain res) \<longrightarrow>
       distinct res \<and> set res = set v \<union> set f \<and> length res = card (set v \<union> set f)) \<and>
   (\<forall>t. rerank_type opt = Some t \<and> t \<noteq> ''RRF'' \<and> t \<noteq> ''WeightedRank'' \<longrightarrow>
       (\<exists>res. rerank_data math_atan v f k opt = Inr (Plain res))) \<and>
   (rerank_type opt = Some ''RRF'' \<and> rank_value opt = Some c \<and> 0 \<le> c \<longrightarrow>
       (\<exists>res. rerank_data math_atan v f k opt = Inr (Scored res))) \<and>
   (rerank_type opt = Some ''WeightedRank'' \<and> weighted_score opt = Some [w0, w1] \<longrightarrow>
       (\<exists>res. rerank_data math_atan v f k opt = Inr (Scored res)))"
proof -
  have scored: "distinct (map snd res) \<and> length res \<le> nat k"
    if k: "0 \<le> k" and r: "rerank_data math_atan v f k opt = Inr (Scored res)" for res
  proof -
    obtain d where res: "res = top_k k d" and d: "distinct (map fst d)"
      using r
      by (auto simp: rerank_data_def rrf_rerank_def weighted_rank_def Let_def
          split: option.splits if_splits sum.splits
          dest!: rrf_loop_distinct weighted_loop_distinct)
    show ?thesis
      unfolding res using d k by (simp add: top_k_distinct top_k_length)
  qed
  have plain: "distinct res \<and> set res = set v \<union> set f \<and> length res = card (set v \<union> set f)"
    if r: "rerank_data math_atan v f k opt = Inr (Plain res)" for res
  proof -
    have res: "res = remdups (v @ f)"
      using r
      by (auto simp: rerank_data_def Let_def split: option.splits if_splits sum.splits)
    show ?thesis
      unfolding res by (simp add: length_remdups_card_conv)
  qed
  have other: "\<exists>res. rerank_data math_atan v f k opt = Inr (Plain res)"
    if "rerank_type opt = Some t" "t \<noteq> ''RRF''" "t \<noteq> ''WeightedRank''" for t
    using that by (simp add: rerank_data_def)
  have rrf: "\<exists>res. rerank_data math_atan v f k opt = Inr (Scored res)"
    if "rerank_type opt = Some ''RRF''" "rank_value opt = Some c" "0 \<le> c"
  proof -
    have nz: "\<forall>(r, t) \<in> set (enumerate1 xs). c + int r \<noteq> 0" for xs :: "'a list"
      using that(3) by (auto dest!: fst_enumerate1)
    show ?thesis
      using that by (simp add: rerank_data_def rrf_rerank_def rrf_loop_accumulate [OF nz])
  qed
  have wr: "\<exists>res. rerank_data math_atan v f k opt = Inr (Scored res)"
    if "rerank_type opt = Some ''WeightedRank''" "weighted_score opt = Some [w0, w1]"
  proof -
    obtain d' where "weighted_loop math_atan [w0, w1]
        (map (\<lambda>(score, t). (score, t, ''vector'')) (enumerate1 v) @
         map (\<lambda>(score, t). (score, t, ''full_text'')) (enumerate1 f)) [] = Inr d'"
      using weighted_loop_total by blast
    then show ?thesis
      using that by (simp add: rerank_data_def weighted_rank_def)
  qed
  show ?thesis
    using scored plain other rrf wr by blast
qed

theorem rerank_data_dedup_witness:
  "rerank_data correctly_rounded_atan [''a'', ''b''] [''b'', ''c''] 2
     \<lparr>rerank_type = Some ''RRF'', rank_value = Some 60, weighted_score = None,
      rerank_score_threshold = None\<rparr> =
     Inr (Scored [(146468205755307 / 2 ^ 52, ''b''), (4725088133634619 / 2 ^ 58, ''a'')]) \<and>
   distinct (map snd [(146468205755307 / 2 ^ 52 :: real, ''b''), (4725088133634619 / 2 ^ 58, ''a'')]) \<and>
   length [(146468205755307 / 2 ^ 52 :: real, ''b''), (4725088133634619 / 2 ^ 58, ''a'')] \<le> nat 2 \<and>
   rerank_data correctly_rounded_atan [''a'', ''b''] [''b'', ''c''] 2
     \<lparr>rerank_type = Some ''other'', rank_value = None, weighted_score = None,
      rerank_score_threshold = None\<rparr> =
     Inr (Plain [''a'', ''b'', ''c'']) \<and>
   distinct [''a'', ''b'', ''c''] \<and>
   set [''a'', ''b'', ''c''] = set [''a'', ''b''] \<union> set [''b'', ''c'']"
proof -
  let ?rrf = "\<lparr>rerank_type = Some ''RRF'', rank_value = Some 60, weighted_score = None,
      rerank_score_threshold = None\<rparr>"
  let ?other = "\<lparr>rerank_type = Some ''other'', rank_value = None, weighted_score = None,
      rerank_score_threshold = None\<rparr>"
  let ?res = "[(146468205755307 / 2 ^ 52 :: real, ''b''), (4725088133634619 / 2 ^ 58, ''a'')]"
  have l: "rrf_loop 60 (enumerate1 [''b'', ''c''])
             [(''a'', rnd (1 / 61)), (''b'', rnd (1 / 62))] =
           Inr [(''a'', rnd (1 / 61)), (''b'', float_add (rnd (1 / 62)) (rnd (1 / 61))),
                (''c'', rnd (1 / 62))]"
    unfolding enumerate1_def
    by (simp add: upt_rec int_truediv_def)
  have v: "rrf_loop 60 (enumerate1 [''a'', ''b'']) [] =
           Inr [(''a'', rnd (1 / 61)), (''b'', rnd (1 / 62))]"
    unfolding enumerate1_def
    by (simp add: upt_rec int_truediv_def)
  have rr0: "rrf_rerank [''a'', ''b''] [''b'', ''c''] 2 60 =
      Inr (top_k 2 [(''a'', rnd (1 / 61)), (''b'', float_add (rnd (1 / 62)) (rnd (1 / 61))),
                    (''c'', rnd (1 / 62))])"
    unfolding rrf_rerank_def v l sum.case ..
  have rr: "rrf_rerank [''a'', ''b''] [''b'', ''c''] 2 60 = Inr ?res"
    unfolding rr0 top_k_def rnd_61 rnd_62 float_add_62_61
    by (simp add: slice_to_def sorted_desc_def)
  have a: "rerank_data correctly_rounded_atan [''a'', ''b''] [''b'', ''c''] 2 ?rrf = Inr (Scored ?res)"
    by (simp add: rerank_data_def rr)
  have b: "rerank_data correctly_rounded_atan [''a'', ''b''] [''b'', ''c''] 2 ?other =
      Inr (Plain [''a'', ''b'', ''c''])"
    by (simp add: rerank_data_def)
  have k: "(0 :: int) \<le> 2" by simp
  from rerank_data_dedup [of 2 correctly_rounded_atan "[''a'', ''b'']" "[''b'', ''c'']" ?rrf] a k
  have a': "distinct (map snd ?res) \<and> length ?res \<le> nat 2" by blast
  from rerank_data_dedup [of 2 correctly_rounded_atan "[''a'', ''b'']" "[''b'', ''c'']" ?other] b
  have b': "distinct [''a'', ''b'', ''c''] \<and>
      set [''a'', ''b'', ''c''] = set [''a'', ''b''] \<union> set [''b'', ''c'']" by blast
  from a b a' b' show ?thesis by blast
qed

text \<open>
  The claim as stated, a length of at most \<open>k\<close> for every rerank option, fails in the
  fallback branch: three items are returned for \<open>k = 1\<close>.
\<close>

theorem rerank_data_fallback_exceeds_k:
  "rerank_data correctly_rounded_atan [''a'', ''b''] [''c''] 1
     \<lparr>rerank_type = Some ''other'', rank_value = None, weighted_score = None,
      rerank_score_threshold = None\<rparr> = Inr (Plain [''a'', ''b'', ''c'']) \<and>
   \<not> length [''a'', ''b'', ''c''] \<le> nat 1"
  by (simp add: rerank_data_def)

section \<open>The C library's arctangent at the arguments of the examples\<close>

lemma arctan_series_bounds:
  assumes "0 \<le> x" "x \<le> 1"
  shows "arctan_partial x (2 * n) \<le> arctan x"
    and "arctan x \<le> arctan_partial x (2 * n + 1)"
proof -
  let ?a = "\<lambda>n. 1 / real (n * 2 + 1) * x ^ (n * 2 + 1)"
  have ax: "\<bar>x\<bar> \<le> 1" using assms by simp
  have z: "?a \<longlonglongrightarrow> 0" using zeroseq_arctan_series [OF ax] .
  have nn: "0 \<le> ?a n" for n using assms by simp
  have mono: "?a (Suc n) \<le> ?a n" for n
  proof -
    have p: "x ^ (Suc n * 2 + 1) \<le> x ^ (n * 2 + 1)"
      using assms by (intro power_decreasing) simp_all
    have q: "1 / real (Suc n * 2 + 1) \<le> 1 / real (n * 2 + 1)"
      by (intro divide_left_mono) simp_all
    show ?thesis
      using p q assms by (intro mult_mono) simp_all
  qed
  have s: "arctan x = (\<Sum>k. (- 1) ^ k * ?a k)"
    using arctan_series [OF ax] .
  show "arctan_partial x (2 * n) \<le> arctan x"
    unfolding s arctan_partial_def using summable_Leibniz'(2) [OF z nn mono] .
  show "arctan x \<le> arctan_partial x (2 * n + 1)"
    unfolding s arctan_partial_def using summable_Leibniz'(4) [OF z nn mono] .
qed

lemma arctan_partial_list:
  "arctan_partial x n = sum_list (map (\<lambda>i. (- 1) ^ i * (1 / real (i * 2 + 1) * x ^ (i * 2 + 1))) [0..<n])"
  unfolding arctan_partial_def by (simp add: interv_sum_list_conv_sum_set_nat atLeast0LessThan)

lemma half_lower: "0.463647609000806116213 \<le> arctan_partial (1 / 2) 32"
  unfolding arctan_partial_list by (simp add: upt_rec power_one_over)

lemma half_upper: "arctan_partial (1 / 2) 33 \<le> 0.463647609000806116215"
  unfolding arctan_partial_list by (simp add: upt_rec power_one_over)

lemma fifth_lower: "0.1973955598498807583700 \<le> arctan_partial (1 / 5) 16"
  unfolding arctan_partial_list by (simp add: upt_rec power_one_over)

lemma fifth_upper: "arctan_partial (1 / 5) 17 \<le> 0.1973955598498807583701"
  unfolding arctan_partial_list by (simp add: upt_rec power_one_over)

lemma small_lower: "0.0041840760020747238645 \<le> arctan_partial (1 / 239) 6"
  unfolding arctan_partial_list by (simp add: upt_rec power_one_over)

lemma small_upper: "arctan_partial (1 / 239) 7 \<le> 0.0041840760020747238646"
  unfolding arctan_partial_list by (simp add: upt_rec power_one_over)

lemma arctan_half_bounds:
  "0.463647609000806116213 \<le> arctan (1 / 2)" "arctan (1 / 2) \<le> 0.463647609000806116215"
proof -
  have "arctan_partial (1 / 2) (2 * 16) \<le> arctan (1 / 2)"
    by (rule arctan_series_bounds) simp_all
  with half_lower show "0.463647609000806116213 \<le> arctan (1 / 2)" by simp
  have "arctan (1 / 2) \<le> arctan_partial (1 / 2) (2 * 16 + 1)"
    by (rule arctan_series_bounds) simp_all
  with half_upper show "arctan (1 / 2) \<le> 0.463647609000806116215" by simp
qed

lemma pi_bounds: "3.14159265358979323846 \<le> pi" "pi \<le> 3.14159265358979323847"
proof -
  have a1: "arctan_partial (1 / 5) (2 * 8) \<le> arctan (1 / 5)"
    by (rule arctan_series_bounds) simp_all
  have a2: "arctan (1 / 5) \<le> arctan_partial (1 / 5) (2 * 8 + 1)"
    by (rule arctan_series_bounds) simp_all
  have b1: "arctan_partial (1 / 239) (2 * 3) \<le> arctan (1 / 239)"
    by (rule arctan_series_bounds) simp_all
  have b2: "arctan (1 / 239) \<le> arctan_partial (1 / 239) (2 * 3 + 1)"
    by (rule arctan_series_bounds) simp_all
  have p: "pi = 16 * arctan (1 / 5) - 4 * arctan (1 / 239)"
    using machin by simp
  have l5: "0.1973955598498807583700 \<le> arctan (1 / 5)" using a1 fifth_lower by simp
  have u5: "arctan (1 / 5) \<le> 0.1973955598498807583701" using a2 fifth_upper by simp
  have l239: "0.0041840760020747238645 \<le> arctan (1 / 239)" using b1 small_lower by simp
  have u239: "arctan (1 / 239) \<le> 0.0041840760020747238646" using b2 small_upper by simp
  show "3.14159265358979323846 \<le> pi" unfolding p using l5 u239 by simp
  show "pi \<le> 3.14159265358979323847" unfolding p using u5 l239 by simp
qed

lemma arctan_two: "arctan 2 = pi / 2 - arctan (1 / 2)"
  using arctan_inverse [of "2 :: real"] by simp

lemma arctan_large:
  assumes "1 \<le> x"
  shows "pi / 2 - 1 / x \<le> arctan x" "arctan x < pi / 2"
proof -
  have "arctan (1 / x) = pi / 2 - arctan x"
    using arctan_inverse [of x] assms by simp
  moreover have "arctan (1 / x) \<le> arctan_partial (1 / x) (2 * 0 + 1)"
    using assms by (intro arctan_series_bounds) simp_all
  then have "arctan (1 / x) \<le> 1 / x"
    by (simp add: arctan_partial_def)
  ultimately show "pi / 2 - 1 / x \<le> arctan x" by simp
  show "arctan x < pi / 2" by (rule arctan_ubound)
qed

text \<open>\<^verbatim>\<open>math.pi\<close> is the double nearest to \<open>\<pi>\<close>: twice the double nearest to \<open>\<pi> / 2\<close>.\<close>

lemma rnd_half_pi: "rnd (pi / 2) = math_pi / 2"
proof -
  have "rnd (pi / 2) = of_int 7074237752028440 / 2 ^ (0 + 52)"
    using pi_bounds by (intro rnd_at_unique) simp_all
  then show ?thesis by (simp add: math_pi_def)
qed

lemma atan_zero: "correctly_rounded_atan 0 = 0"
  by (simp add: correctly_rounded_atan_def)

lemma atan_minus: "correctly_rounded_atan (- x) = - correctly_rounded_atan x"
  by (simp add: correctly_rounded_atan_def arctan_minus rnd_minus)

lemma atan_one: "correctly_rounded_atan 1 = 884279719003555 / 2 ^ 50"
proof -
  have "rnd (pi / 4) = of_int 7074237752028440 / 2 ^ (1 + 52)"
    using pi_bounds by (intro rnd_at_unique) simp_all
  then show ?thesis by (simp add: correctly_rounded_atan_def arctan_one)
qed

lemma atan_two: "correctly_rounded_atan 2 = 1246538638225297 / 2 ^ 50"
proof -
  have "rnd (arctan 2) = of_int 4986154552901188 / 2 ^ (0 + 52)"
    unfolding arctan_two using pi_bounds arctan_half_bounds by (intro rnd_at_unique) simp_all
  then show ?thesis by (simp add: correctly_rounded_atan_def)
qed

lemma atan_1e17: "correctly_rounded_atan (10 ^ 17) = 884279719003555 / 2 ^ 49"
proof -
  have "rnd (arctan (10 ^ 17)) = of_int 7074237752028440 / 2 ^ (0 + 52)"
    using pi_bounds arctan_large [of "10 ^ 17"] by (intro rnd_at_unique) simp_all
  then show ?thesis by (simp add: correctly_rounded_atan_def)
qed

lemma atan_1e16: "correctly_rounded_atan (10 ^ 16) = 884279719003555 / 2 ^ 49"
proof -
  have "rnd (arctan (10 ^ 16)) = of_int 7074237752028440 / 2 ^ (0 + 52)"
    using pi_bounds arctan_large [of "10 ^ 16"] by (intro rnd_at_unique) simp_all
  then show ?thesis by (simp add: correctly_rounded_atan_def)
qed

subsection \<open>Normalisation\<close>

lemma inv_pi: "float_truediv 1 math_pi = 5734161139222659 / 2 ^ 54"
  unfolding float_truediv_def math_pi_def
  by (subst rnd_at [where n = 2]) (simp_all add: round_half_even_def)

lemma normalize_unfold:
  "arctan_normalize math_atan x =
     float_add (float_mul (5734161139222659 / 2 ^ 54) (math_atan (as_float x))) (1 / 2)"
  unfolding arctan_normalize_def inv_pi ..

lemma float_mul_minus: "float_mul a (- b) = - float_mul a b"
  by (simp add: float_mul_def rnd_minus)

lemma mul_quarter_pi: "float_mul (5734161139222659 / 2 ^ 54) (884279719003555 / 2 ^ 50) = 1 / 4"
  unfolding float_mul_def
  by (subst rnd_at [where n = 2]) (simp_all add: round_half_even_def)

lemma mul_half_pi: "float_mul (5734161139222659 / 2 ^ 54) (884279719003555 / 2 ^ 49) = 1 / 2"
  unfolding float_mul_def
  by (subst rnd_at [where n = 1]) (simp_all add: round_half_even_def)

lemma mul_atan_two:
  "float_mul (5734161139222659 / 2 ^ 54) (1246538638225297 / 2 ^ 50) = 1587142288228767 / 2 ^ 52"
  unfolding float_mul_def
  by (subst rnd_at [where n = 2]) (simp_all add: round_half_even_def)

lemma mul_atan_two_other:
  "float_mul (5734161139222659 / 2 ^ 54) (4986154552901189 / 2 ^ 52) = 6348569152915069 / 2 ^ 54"
  unfolding float_mul_def
  by (subst rnd_at [where n = 2]) (simp_all add: round_half_even_def)

lemma add_three_quarters: "float_add (1 / 4) (1 / 2) = 3 / 4"
  unfolding float_add_def
  by (subst rnd_at [where n = 1]) (simp_all add: round_half_even_def)

lemma add_quarter: "float_add (- (1 / 4)) (1 / 2) = 1 / 4"
  unfolding float_add_def
  by (subst rnd_at [where n = 2]) (simp_all add: round_half_even_def)

lemma add_one: "float_add (1 / 2) (1 / 2) = 1"
  unfolding float_add_def
  by (subst rnd_at [where n = 0]) (simp_all add: round_half_even_def)

lemma add_zero: "float_add (- (1 / 2)) (1 / 2) = 0"
  by (simp add: float_add_def)

lemma add_half: "float_add 0 (1 / 2) = 1 / 2"
  unfolding float_add_def
  by (subst rnd_at [where n = 1]) (simp_all add: round_half_even_def)

lemma add_norm_two: "float_add (- (1587142288228767 / 2 ^ 52)) (1 / 2) = 664657525456481 / 2 ^ 52"
  unfolding float_add_def
  by (subst rnd_at [where n = 3]) (simp_all add: round_half_even_def)

lemma add_norm_two_other:
  "float_add (- (6348569152915069 / 2 ^ 54)) (1 / 2) = 2658630101825923 / 2 ^ 54"
  unfolding float_add_def
  by (subst rnd_at [where n = 3]) (simp_all add: round_half_even_def)

lemma as_float_small:
  "as_float (PyInt 0) = 0" "as_float (PyInt 1) = 1" "as_float (PyInt (- 1)) = - 1"
  "as_float (PyInt (- 2)) = - 2"
  using rnd_minus [of 1] rnd_minus [of 2] by (simp_all add: rnd_one rnd_two)

lemma normalize_zero: "arctan_normalize correctly_rounded_atan (PyInt 0) = 1 / 2"
proof -
  have "arctan_normalize correctly_rounded_atan (PyInt 0) =
      float_add (float_mul (5734161139222659 / 2 ^ 54) 0) (1 / 2)"
    unfolding normalize_unfold as_float_small atan_zero ..
  also have "float_mul (5734161139222659 / 2 ^ 54) 0 = 0"
    by (simp add: float_mul_def)
  finally show ?thesis unfolding add_half .
qed

lemma normalize_one: "arctan_normalize correctly_rounded_atan (PyInt 1) = 3 / 4"
  unfolding normalize_unfold as_float_small atan_one mul_quarter_pi add_three_quarters ..

lemma normalize_minus_one: "arctan_normalize correctly_rounded_atan (PyInt (- 1)) = 1 / 4"
  unfolding normalize_unfold as_float_small atan_minus atan_one float_mul_minus mul_quarter_pi
    add_quarter ..

lemma normalize_minus_two:
  "arctan_normalize correctly_rounded_atan (PyInt (- 2)) = 664657525456481 / 2 ^ 52"
  unfolding normalize_unfold as_float_small atan_minus atan_two float_mul_minus mul_atan_two
    add_norm_two ..

lemma normalize_1e17: "arctan_normalize correctly_rounded_atan (PyFloat (10 ^ 17)) = 1"
  unfolding normalize_unfold as_float.simps atan_1e17 mul_half_pi add_one ..

lemma normalize_1e16: "arctan_normalize correctly_rounded_atan (PyFloat (10 ^ 16)) = 1"
  unfolding normalize_unfold as_float.simps atan_1e16 mul_half_pi add_one ..

lemma normalize_minus_1e17: "arctan_normalize correctly_rounded_atan (PyFloat (- (10 ^ 17))) = 0"
  unfolding normalize_unfold as_float.simps atan_minus atan_1e17 float_mul_minus mul_half_pi
    add_zero ..

text \<open>
  Claim C7 says that the normalisation maps every input into the open interval
  \<open>(0, 1)\<close> and is monotonically increasing, and the docstring of
  \<^verbatim>\<open>arctan_normalize\<close> says the same of the interval. The code computes in doubles:
  at \<open>10\<^sup>1\<^sup>7\<close> it returns exactly 1, at \<open>-10\<^sup>1\<^sup>7\<close> exactly 0, and at \<open>10\<^sup>1\<^sup>6\<close>
  the same value as at \<open>10\<^sup>1\<^sup>7\<close>. The values at 0, 1 and -1 are the claimed 0.5, 0.75
  and 0.25.
\<close>

theorem arctan_normalize_saturates:
  "arctan_normalize correctly_rounded_atan (PyFloat (10 ^ 17)) = 1 \<and>
   arctan_normalize correctly_rounded_atan (PyFloat (- (10 ^ 17))) = 0 \<and>
   arctan_normalize correctly_rounded_atan (PyFloat (10 ^ 16)) =
     arctan_normalize correctly_rounded_atan (PyFloat (10 ^ 17)) \<and>
   arctan_normalize correctly_rounded_atan (PyInt 0) = 1 / 2 \<and>
   arctan_normalize correctly_rounded_atan (PyInt 1) = 3 / 4 \<and>
   arctan_normalize correctly_rounded_atan (PyInt (- 1)) = 1 / 4"
  unfolding normalize_1e17 normalize_1e16 normalize_minus_1e17 normalize_zero normalize_one
    normalize_minus_one
  by simp

subsection \<open>Weighted rank fusion: the example\<close>

lemma other_atan_values:
  "other_atan (- 1) = - (884279719003555 / 2 ^ 50)"
  "other_atan (- 2) = - (4986154552901189 / 2 ^ 52)"
  by (simp_all add: other_atan_def atan_minus atan_one)

lemma other_normalize_minus_one: "arctan_normalize other_atan (PyInt (- 1)) = 1 / 4"
  unfolding normalize_unfold as_float_small other_atan_values float_mul_minus mul_quarter_pi
    add_quarter ..

lemma other_normalize_minus_two:
  "arctan_normalize other_atan (PyInt (- 2)) = 2658630101825923 / 2 ^ 54"
  unfolding normalize_unfold as_float_small other_atan_values float_mul_minus mul_atan_two_other
    add_norm_two_other ..

lemma mul_score1: "float_mul (1 / 4) (5404319552844595 / 2 ^ 53) = 5404319552844595 / 2 ^ 55"
  unfolding float_mul_def
  by (subst rnd_at [where n = 3]) (simp_all add: round_half_even_def)

lemma mul_score3: "float_mul (1 / 4) (3602879701896397 / 2 ^ 53) = 3602879701896397 / 2 ^ 55"
  unfolding float_mul_def
  by (subst rnd_at [where n = 4]) (simp_all add: round_half_even_def)

lemma mul_score2:
  "float_mul (664657525456481 / 2 ^ 52) (5404319552844595 / 2 ^ 53) = 6380712244382217 / 2 ^ 56"
  unfolding float_mul_def
  by (subst rnd_at [where n = 4]) (simp_all add: round_half_even_def)

lemma mul_score4:
  "float_mul (664657525456481 / 2 ^ 52) (3602879701896397 / 2 ^ 53) = 8507616325842957 / 2 ^ 57"
  unfolding float_mul_def
  by (subst rnd_at [where n = 5]) (simp_all add: round_half_even_def)

lemma mul_score2_other:
  "float_mul (2658630101825923 / 2 ^ 54) (5404319552844595 / 2 ^ 53) = 6380712244382215 / 2 ^ 56"
  unfolding float_mul_def
  by (subst rnd_at [where n = 4]) (simp_all add: round_half_even_def)

lemma mul_score4_other:
  "float_mul (2658630101825923 / 2 ^ 54) (3602879701896397 / 2 ^ 53) = 4253808162921477 / 2 ^ 56"
  unfolding float_mul_def
  by (subst rnd_at [where n = 5]) (simp_all add: round_half_even_def)

lemma weighted_example_loop:
  "weighted_loop math_atan [w0, w1]
     (map (\<lambda>(score, t). (score, t, ''vector'')) (enumerate1 [''doc1'', ''doc2'']) @
      map (\<lambda>(score, t). (score, t, ''full_text'')) (enumerate1 [''doc3'', ''doc4''])) [] =
   Inr [(''doc1'', float_mul (arctan_normalize math_atan (PyInt (- 1))) w0),
        (''doc2'', float_mul (arctan_normalize math_atan (PyInt (- 2))) w0),
        (''doc3'', float_mul (arctan_normalize math_atan (PyInt (- 1))) w1),
        (''doc4'', float_mul (arctan_normalize math_atan (PyInt (- 2))) w1)]"
  by (simp add: enumerate1_def upt_rec index_def convert_metric_score_def lower_def char_lower_def)

lemma sorted_desc_four:
  fixes a b c d :: real
  assumes "c \<le> a" "b < c" "d \<le> b"
  shows "sorted_desc [(t1, a), (t2, b), (t3, c), (t4, d)] = [(t1, a), (t3, c), (t2, b), (t4, d)]"
  using assms by (simp add: sorted_desc_def)

lemma weighted_example_general:
  assumes "float_mul (arctan_normalize math_atan (PyInt (- 1))) w0 = s1"
    and "float_mul (arctan_normalize math_atan (PyInt (- 2))) w0 = s2"
    and "float_mul (arctan_normalize math_atan (PyInt (- 1))) w1 = s3"
    and "float_mul (arctan_normalize math_atan (PyInt (- 2))) w1 = s4"
    and "s3 \<le> s1" "s2 < s3" "s4 \<le> s2"
  shows "weighted_rank math_atan [''doc1'', ''doc2''] [''doc3'', ''doc4''] 4 [w0, w1] =
     Inr [(s1, ''doc1''), (s3, ''doc3''), (s2, ''doc2''), (s4, ''doc4'')]"
  unfolding weighted_rank_def Let_def weighted_example_loop sum.case top_k_def assms(1-4)
    sorted_desc_four [OF assms(5-7)]
  by (simp add: slice_to_def)

text \<open>
  Claim C3 gives, for the lists doc1, doc2 and doc3, doc4 with the weights 0.6 and 0.4,
  the scores 0.15, 0.1, 0.08855017059025992 and 0.059033447060173286, and the
  repository's test asserts them with \<^verbatim>\<open>assertEqual\<close>. With a correctly rounded
  arctangent, as on GNU/Linux, the code returns 0.08855017059025995 and
  0.05903344706017331 for doc2 and doc4, which are other doubles. The digits of the claim
  are what the code returns when the arctangent of -2 is one unit in the last place off.
\<close>

theorem weighted_rank_example_digits:
  "weighted_rank correctly_rounded_atan [''doc1'', ''doc2''] [''doc3'', ''doc4''] 4
     [rnd (6 / 10), rnd (4 / 10)] =
     Inr [(rnd 0.15, ''doc1''), (rnd 0.1, ''doc3''),
          (rnd 0.08855017059025995, ''doc2''), (rnd 0.05903344706017331, ''doc4'')] \<and>
   rnd 0.08855017059025995 \<noteq> rnd 0.08855017059025992 \<and>
   rnd 0.05903344706017331 \<noteq> rnd 0.059033447060173286 \<and>
   weighted_rank other_atan [''doc1'', ''doc2''] [''doc3'', ''doc4''] 4
     [rnd (6 / 10), rnd (4 / 10)] =
     Inr [(rnd 0.15, ''doc1''), (rnd 0.1, ''doc3''),
          (rnd 0.08855017059025992, ''doc2''), (rnd 0.059033447060173286, ''doc4'')]"
proof -
  have a: "weighted_rank correctly_rounded_atan [''doc1'', ''doc2''] [''doc3'', ''doc4''] 4
     [rnd (6 / 10), rnd (4 / 10)] =
     Inr [(rnd 0.15, ''doc1''), (rnd 0.1, ''doc3''),
          (rnd 0.08855017059025995, ''doc2''), (rnd 0.05903344706017331, ''doc4'')]"
  proof (rule weighted_example_general)
    show "float_mul (arctan_normalize correctly_rounded_atan (PyInt (- 1))) (rnd (6 / 10)) = rnd 0.15"
      unfolding normalize_minus_one rnd_six_tenths mul_score1 rnd_lit_015 ..
    show "float_mul (arctan_normalize correctly_rounded_atan (PyInt (- 2))) (rnd (6 / 10)) =
        rnd 0.08855017059025995"
      unfolding normalize_minus_two rnd_six_tenths mul_score2 rnd_lit_glibc2 ..
    show "float_mul (arctan_normalize correctly_rounded_atan (PyInt (- 1))) (rnd (4 / 10)) = rnd 0.1"
      unfolding normalize_minus_one rnd_four_tenths mul_score3 rnd_lit_01 ..
    show "float_mul (arctan_normalize correctly_rounded_atan (PyInt (- 2))) (rnd (4 / 10)) =
        rnd 0.05903344706017331"
      unfolding normalize_minus_two rnd_four_tenths mul_score4 rnd_lit_glibc4 ..
    show "rnd 0.1 \<le> rnd 0.15" unfolding rnd_lit_01 rnd_lit_015 by simp
    show "rnd 0.08855017059025995 < rnd 0.1" unfolding rnd_lit_01 rnd_lit_glibc2 by simp
    show "rnd 0.05903344706017331 \<le> rnd 0.08855017059025995"
      unfolding rnd_lit_glibc4 rnd_lit_glibc2 by simp
  qed
  have b: "weighted_rank other_atan [''doc1'', ''doc2''] [''doc3'', ''doc4''] 4
     [rnd (6 / 10), rnd (4 / 10)] =
     Inr [(rnd 0.15, ''doc1''), (rnd 0.1, ''doc3''),
          (rnd 0.08855017059025992, ''doc2''), (rnd 0.059033447060173286, ''doc4'')]"
  proof (rule weighted_example_general)
    show "float_mul (arctan_normalize other_atan (PyInt (- 1))) (rnd (6 / 10)) = rnd 0.15"
      unfolding other_normalize_minus_one rnd_six_tenths mul_score1 rnd_lit_015 ..
    show "float_mul (arctan_normalize other_atan (PyInt (- 2))) (rnd (6 / 10)) =
        rnd 0.08855017059025992"
      unfolding other_normalize_minus_two rnd_six_tenths mul_score2_other rnd_lit_claim2 ..
    show "float_mul (arctan_normalize other_atan (PyInt (- 1))) (rnd (4 / 10)) = rnd 0.1"
      unfolding other_normalize_minus_one rnd_four_tenths mul_score3 rnd_lit_01 ..
    show "float_mul (arctan_normalize other_atan (PyInt (- 2))) (rnd (4 / 10)) =
        rnd 0.059033447060173286"
      unfolding other_normalize_minus_two rnd_four_tenths mul_score4_other rnd_lit_claim4 ..
    show "rnd 0.1 \<le> rnd 0.15" unfolding rnd_lit_01 rnd_lit_015 by simp
    show "rnd 0.08855017059025992 < rnd 0.1" unfolding rnd_lit_01 rnd_lit_claim2 by simp
    show "rnd 0.059033447060173286 \<le> rnd 0.08855017059025992"
      unfolding rnd_lit_claim4 rnd_lit_claim2 by simp
  qed
  have c: "rnd 0.08855017059025995 \<noteq> rnd 0.08855017059025992"
    unfolding rnd_lit_glibc2 rnd_lit_claim2 by simp
  have d: "rnd 0.05903344706017331 \<noteq> rnd 0.059033447060173286"
    unfolding rnd_lit_glibc4 rnd_lit_claim4 by simp
  from a b c d show ?thesis by blast
qed

section \<open>Properties of the filter clause compiler\<close>

lemma conditions_skip: "conditions xs lg = conditions (filter is_mapping xs) lg"
proof (induction xs arbitrary: lg)
  case Nil show ?case by simp
next
  case (Cons x xs)
  show ?case
    by (cases x) (simp_all add: Cons.IH split: prod.splits sum.splits)
qed

lemma prepend_simps [simp]:
  "prepend c (Inl e, lg) = (Inl e, lg)"
  "prepend c (Inr cs, lg) = (Inr (c # cs), lg)"
  by (simp_all add: prepend_def)

lemma then_items_prepend: "then_items (prepend c r) rest = prepend c (then_items r rest)"
  by (auto simp: then_items_def prepend_def split: prod.splits sum.splits)

lemma filter_items_append: "filter_items (pre @ rest) lg = then_items (filter_items pre lg) rest"
proof (induction pre arbitrary: lg)
  case Nil
  show ?case by (simp add: then_items_def split: prod.splits sum.splits)
next
  case (Cons a pre)
  obtain key v where a: "a = (key, v)" by (cases a)
  show ?case
    unfolding a
    apply (simp add: Cons.IH then_items_prepend split: json.splits prod.splits sum.splits option.splits)
    apply (auto simp: then_items_def)
    done
qed


lemma create_filter_clause_log:
  "create_filter_clause key d lg =
     (fst (create_filter_clause key d []), lg @ snd (create_filter_clause key d []))"
  by (simp add: create_filter_clause_def Let_def split: option.splits)

lemma prepend_log:
  "prepend c (a, lg @ ws) = (fst (prepend c (a, ws)), lg @ snd (prepend c (a, ws)))"
  by (cases a) (simp_all add: prepend_def)

lemma seq_log:
  assumes g: "\<forall>lg. g lg = (fst (g []), lg @ snd (g []))"
    and h: "\<And>b. fst (g []) = Inr b \<Longrightarrow> \<forall>lg. h lg = (fst (h []), lg @ snd (h []))"
  shows "(case g lg of (Inl e, lg') \<Rightarrow> (Inl e, lg') | (Inr b, lg') \<Rightarrow> prepend (c b) (h lg')) =
         (fst (case g [] of (Inl e, lg') \<Rightarrow> (Inl e, lg') | (Inr b, lg') \<Rightarrow> prepend (c b) (h lg')),
          lg @ snd (case g [] of (Inl e, lg') \<Rightarrow> (Inl e, lg') | (Inr b, lg') \<Rightarrow> prepend (c b) (h lg')))"
proof -
  obtain a ws where g0: "g [] = (a, ws)" by (cases "g []")
  have gl: "g lg = (a, lg @ ws)" using g g0 by (metis fst_conv snd_conv)
  show ?thesis
  proof (cases a)
    case (Inl e)
    then show ?thesis by (simp add: g0 gl)
  next
    case (Inr b)
    have "fst (g []) = Inr b" using g0 Inr by simp
    then have hh: "\<forall>lg. h lg = (fst (h []), lg @ snd (h []))" by (rule h)
    obtain r hs where h0: "h [] = (r, hs)" by (cases "h []")
    have h1: "h (lg @ ws) = (r, lg @ ws @ hs)" "h ws = (r, ws @ hs)"
      using hh h0 by (metis append.assoc fst_conv snd_conv)+
    show ?thesis
      by (cases r) (simp_all add: g0 gl Inr h1 prepend_def)
  qed
qed

lemma prepend_log_free:
  "\<forall>lg. h lg = (fst (h []), lg @ snd (h [])) \<Longrightarrow>
   prepend c (h lg) = (fst (prepend c (h [])), lg @ snd (prepend c (h [])))"
proof -
  assume hh: "\<forall>lg. h lg = (fst (h []), lg @ snd (h []))"
  obtain r hs where h0: "h [] = (r, hs)" by (cases "h []")
  have h1: "h lg = (r, lg @ hs)" using hh h0 by (metis fst_conv snd_conv)
  show ?thesis by (cases r) (simp_all add: h0 h1 prepend_def)
qed

lemma log_independent_aux:
  fixes lg :: log
  shows "(\<forall>lg'. filter_items d lg' = (fst (filter_items d []), lg' @ snd (filter_items d [])))"
    and "(\<forall>lg'. conditions xs lg' = (fst (conditions xs []), lg' @ snd (conditions xs [])))"
proof (induction d lg and xs lg rule: filter_items_conditions.induct)
  case (1 lg)
  then show ?case by simp
next
  case (2 key v rest lg)
  have after_conds: "\<forall>lg'. filter_items rest lg' = (fst (filter_items rest []), lg' @ snd (filter_items rest []))"
    if k: "lower key = ''$and'' \<or> (lower key \<noteq> ''$and'' \<and> lower key = ''$or'')"
      and v: "v = JList conds" and b: "fst (conditions conds []) = Inr b" for conds b
  proof -
    have c: "\<forall>lg'. conditions conds lg' = (fst (conditions conds []), lg' @ snd (conditions conds []))"
      using k v "2.IH"(2,6) by blast
    from c [rule_format, of lg]
    have "(Inr b, lg @ snd (conditions conds [])) = conditions conds lg"
      unfolding b by (rule sym)
    then show ?thesis
      using k v "2.IH"(3,7) by blast
  qed
  show ?case
  proof
    fix lg'
    let ?goal = "filter_items ((key, v) # rest) lg' =
      (fst (filter_items ((key, v) # rest) []), lg' @ snd (filter_items ((key, v) # rest) []))"
    consider (comb) "lower key = ''$and'' \<or> (lower key \<noteq> ''$and'' \<and> lower key = ''$or'')"
      | (bare) "lower key \<noteq> ''$and''" "lower key \<noteq> ''$or''" "lower key \<in> set operator_keys"
      | (field) "lower key \<noteq> ''$and''" "lower key \<noteq> ''$or''" "lower key \<notin> set operator_keys"
      by blast
    then show ?goal
    proof cases
      case comb
      show ?thesis
      proof (cases v)
        case (JList conds)
        have c: "\<forall>lg'. conditions conds lg' = (fst (conditions conds []), lg' @ snd (conditions conds []))"
          using comb JList "2.IH"(2,6) by blast
        note s = seq_log [where g = "conditions conds" and h = "filter_items rest" and lg = lg',
            OF c after_conds [OF comb JList]]
        from comb show ?thesis
          by (auto simp: JList s)
      next
        case (JDict d)
        then have r: "\<forall>lg'. filter_items rest lg' = (fst (filter_items rest []), lg' @ snd (filter_items rest []))"
          using comb "2.IH"(4,8) by blast
        from comb show ?thesis
          by (auto simp: JDict prepend_log_free [OF r, of _ lg'])
      next
        case (JStr x)
        then have r: "\<forall>lg'. filter_items rest lg' = (fst (filter_items rest []), lg' @ snd (filter_items rest []))"
          using comb "2.IH"(1,5) by blast
        from comb show ?thesis
          by (auto simp: JStr prepend_log_free [OF r, of _ lg'])
      qed (use comb in auto)
    next
      case bare
      then show ?thesis by simp
    next
      case field
      show ?thesis
      proof (cases v)
        case (JDict d)
        obtain x ws where x: "create_filter_clause key d [] = (x, ws)"
          by (cases "create_filter_clause key d []")
        have cl: "create_filter_clause key d l = (x, l @ ws)" for l
          using create_filter_clause_log [of key d l] x by simp
        have r: "\<forall>lg'. filter_items rest lg' = (fst (filter_items rest []), lg' @ snd (filter_items rest []))"
          using field JDict cl [of lg, symmetric] "2.IH"(15,16) by (cases x) blast+
        obtain rr hs where h0: "filter_items rest [] = (rr, hs)" by (cases "filter_items rest []")
        have h1: "filter_items rest l = (rr, l @ hs)" for l
          using r h0 by (metis fst_conv snd_conv)
        show ?thesis
          using field
          by (cases x; cases rr) (simp_all add: JDict cl h1 prepend_def)
      next
        case JNull
        then have r: "\<forall>lg'. filter_items rest lg' = (fst (filter_items rest []), lg' @ snd (filter_items rest []))"
          using field "2.IH"(9) by blast
        from field show ?thesis by (simp add: JNull prepend_log_free [OF r, of _ lg'])
      next
        case (JBool x)
        then have r: "\<forall>lg'. filter_items rest lg' = (fst (filter_items rest []), lg' @ snd (filter_items rest []))"
          using field "2.IH"(10) by blast
        from field show ?thesis by (simp add: JBool prepend_log_free [OF r, of _ lg'])
      next
        case (JInt x)
        then have r: "\<forall>lg'. filter_items rest lg' = (fst (filter_items rest []), lg' @ snd (filter_items rest []))"
          using field "2.IH"(11) by blast
        from field show ?thesis by (simp add: JInt prepend_log_free [OF r, of _ lg'])
      next
        case (JFloat x)
        then have r: "\<forall>lg'. filter_items rest lg' = (fst (filter_items rest []), lg' @ snd (filter_items rest []))"
          using field "2.IH"(12) by blast
        from field show ?thesis by (simp add: JFloat prepend_log_free [OF r, of _ lg'])
      next
        case (JStr x)
        then have r: "\<forall>lg'. filter_items rest lg' = (fst (filter_items rest []), lg' @ snd (filter_items rest []))"
          using field "2.IH"(13) by blast
        from field show ?thesis by (simp add: JStr prepend_log_free [OF r, of _ lg'])
      next
        case (JList x)
        then have r: "\<forall>lg'. filter_items rest lg' = (fst (filter_items rest []), lg' @ snd (filter_items rest []))"
          using field "2.IH"(14) by blast
        from field show ?thesis by (simp add: JList prepend_log_free [OF r, of _ lg'])
      qed
    qed
  qed
next
  case (3 lg)
  then show ?case by simp
next
  case (4 condition rest lg)
  show ?case
  proof (cases "is_mapping condition")
    case False
    then have eq: "conditions (condition # rest) = conditions rest"
      by (cases condition) (auto intro!: ext)
    have "\<forall>lg'. conditions rest lg' = (fst (conditions rest []), lg' @ snd (conditions rest []))"
    proof (cases condition)
      case (JDict d)
      with False show ?thesis by simp
    qed (erule "4.IH"(1-6))+
    then show ?thesis unfolding eq .
  next
    case True
    then obtain d where JDict: "condition = JDict d" by (cases condition) auto
    have c: "\<forall>lg'. filter_items d lg' = (fst (filter_items d []), lg' @ snd (filter_items d []))"
      using JDict "4.IH"(7) by blast
    have after: "\<forall>lg'. conditions rest lg' = (fst (conditions rest []), lg' @ snd (conditions rest []))"
      if b: "fst (filter_items d []) = Inr b" for b
    proof -
      from c [rule_format, of lg]
      have "(Inr b, lg @ snd (filter_items d [])) = filter_items d lg"
        unfolding b by (rule sym)
      then show ?thesis using JDict "4.IH"(8) by blast
    qed
    show ?thesis
    proof
      fix lg'
      note s = seq_log [where g = "filter_items d" and h = "conditions rest"
          and c = "\<lambda>b. CAnd (CTrue # b)" and lg = lg', OF c after]
      show "conditions (condition # rest) lg' =
        (fst (conditions (condition # rest) []), lg' @ snd (conditions (condition # rest) []))"
        by (simp add: JDict s)
    qed
  qed
qed





lemma operator_key_not_combinator:
  "k \<in> set operator_keys \<Longrightarrow> k \<noteq> ''$and'' \<and> k \<noteq> ''$or''"
  by (auto simp: operator_keys_def)

lemma bare_at_head:
  "lower key \<in> set operator_keys \<Longrightarrow>
   filter_items ((key, v) # post) lg = (Inl (ValueError (bare_operator_message key)), lg)"
  using operator_key_not_combinator [of "lower key"] by simp

lemma bare_anywhere:
  assumes "lower key \<in> set operator_keys"
  shows "filter_items (pre @ (key, v) # post) lg =
     (case filter_items pre lg of
        (Inl e, lg') \<Rightarrow> (Inl e, lg')
      | (Inr cs, lg') \<Rightarrow> (Inl (ValueError (bare_operator_message key)), lg'))"
  unfolding filter_items_append then_items_def
  by (simp add: bare_at_head [OF assms] del: filter_items.simps split: prod.splits sum.splits)







lemma conditions_no_mapping:
  "\<forall>x \<in> set xs. \<not> is_mapping x \<Longrightarrow> conditions xs lg = (Inr [], lg)"
proof -
  assume "\<forall>x \<in> set xs. \<not> is_mapping x"
  then have "filter is_mapping xs = []" by (simp add: filter_empty_conv)
  then show ?thesis using conditions_skip [of xs lg] by simp
qed


lemma prepend_Inl: "prepend c r = (Inl e, lg') \<Longrightarrow> \<exists>lg''. r = (Inl e, lg'')"
  by (auto simp: prepend_def split: prod.splits sum.splits)

lemma errors_are_configuration_errors:
  "filter_items d lg = (Inl e, lg') \<Longrightarrow> configuration_error e"
  "conditions xs lg = (Inl e, lg') \<Longrightarrow> configuration_error e"
proof (induction d lg and xs lg arbitrary: lg' and lg' rule: filter_items_conditions.induct)
  case (1 lg)
  then show ?case by simp
next
  case (2 key v rest lg)
  consider (a) "lower key = ''$and''"
    | (o) "lower key \<noteq> ''$and''" "lower key = ''$or''"
    | (b) "lower key \<noteq> ''$and''" "lower key \<noteq> ''$or''" "lower key \<in> set operator_keys"
    | (f) "lower key \<noteq> ''$and''" "lower key \<noteq> ''$or''" "lower key \<notin> set operator_keys"
    by blast
  then show ?case
  proof cases
    case a
    note ih = "2.IH"(1-4) [OF a]
    from "2.prems" a show ?thesis
      by (auto split: json.splits prod.splits sum.splits dest!: prepend_Inl dest: ih)
  next
    case o
    note ih = "2.IH"(5-8) [OF o]
    from "2.prems" o show ?thesis
      by (auto split: json.splits prod.splits sum.splits dest!: prepend_Inl dest: ih)
  next
    case b
    with "2.prems" show ?thesis by auto
  next
    case f
    note ih = "2.IH"(9-16) [OF f]
    from "2.prems" f show ?thesis
      by (auto split: json.splits prod.splits sum.splits option.splits
          dest!: prepend_Inl dest: ih)
  qed
next
  case (3 lg)
  then show ?case by simp
next
  case (4 condition rest lg)
  from "4.prems" show ?case
    by (auto split: json.splits prod.splits sum.splits dest!: prepend_Inl dest: "4.IH")
qed

text \<open>
  Claim C5. A filter whose top level has a bare operator key (one of \<^verbatim>\<open>$in, $nin, $gt,
  $gte, $lt, $lte, $eq, $ne\<close> in any letter case) never compiles: the compiler raises a
  configuration error. When the entries before the key compile, the exception is the
  \<^verbatim>\<open>ValueError\<close> for that key; otherwise it is the exception of the earlier entry
  (a \<^verbatim>\<open>ValueError\<close> of a nested bare operator, or the \<^verbatim>\<open>TypeError\<close> of a
  combinator whose value cannot be iterated). The filter \<^verbatim>\<open>{"$gt": 5}\<close> raises the \<^verbatim>\<open>ValueError\<close>.
  The filter \<^verbatim>\<open>{"$and": [{"a": 1}, {"b": {"$gt": 5}}]}\<close> compiles to a conjunction
  that holds exactly when the equality on \<^verbatim>\<open>$.a\<close> and the greater-than on
  \<^verbatim>\<open>$.b\<close> both hold.
\<close>

theorem bare_operator_rejected:
  "(\<forall>d key v lg. (key, v) \<in> set d \<and> lower key \<in> set operator_keys \<longrightarrow>
      (\<exists>e lg'. build_filter_clause (Some d) lg = (Inl e, lg') \<and> configuration_error e)) \<and>
   (\<forall>pre key v post lg cs lg'.
      lower key \<in> set operator_keys \<and> filter_items pre lg = (Inr cs, lg') \<longrightarrow>
      build_filter_clause (Some (pre @ (key, v) # post)) lg =
        (Inl (ValueError (bare_operator_message key)), lg')) \<and>
   build_filter_clause (Some [(''$gt'', JInt 5)]) [] =
     (Inl (ValueError (bare_operator_message ''$gt'')), []) \<and>
   build_filter_clause
     (Some [(''$and'', JList [JDict [(''a'', JInt 1)], JDict [(''b'', JDict [(''$gt'', JInt 5)])]])]) [] =
     (Inr (CAnd [CTrue, CAnd [CAnd [CTrue, CJson Eq ''$.a'' (JInt 1)],
                              CAnd [CTrue, CJson Gt ''$.b'' (JInt 5)]]]), []) \<and>
   (\<forall>leaf r.
      holds leaf (CAnd [CTrue, CAnd [CAnd [CTrue, CJson Eq ''$.a'' (JInt 1)],
                                     CAnd [CTrue, CJson Gt ''$.b'' (JInt 5)]]]) r =
      (leaf Eq ''$.a'' (JInt 1) (meta r) \<and> leaf Gt ''$.b'' (JInt 5) (meta r)))"
proof -
  have a: "\<exists>e lg'. build_filter_clause (Some d) lg = (Inl e, lg') \<and> configuration_error e"
    if m: "(key, v) \<in> set d" and l: "lower key \<in> set operator_keys" for d key v lg
  proof -
    obtain pre post where d: "d = pre @ (key, v) # post"
      using split_list [OF m] by blast
    obtain r lg1 where p: "filter_items pre lg = (r, lg1)"
      by (cases "filter_items pre lg")
    show ?thesis
    proof (cases r)
      case (Inl e)
      with p have "configuration_error e"
        using errors_are_configuration_errors(1) by blast
      with p Inl show ?thesis
        unfolding d build_filter_clause_def option.case bare_anywhere [OF l] by simp
    next
      case (Inr cs)
      with p show ?thesis
        unfolding d build_filter_clause_def option.case bare_anywhere [OF l] by simp
    qed
  qed
  have b: "build_filter_clause (Some (pre @ (key, v) # post)) lg =
        (Inl (ValueError (bare_operator_message key)), lg')"
    if "lower key \<in> set operator_keys" "filter_items pre lg = (Inr cs, lg')"
    for pre key v post lg cs lg'
    unfolding build_filter_clause_def option.case bare_anywhere [OF that(1)]
    by (simp add: that(2))
  have c: "build_filter_clause (Some [(''$gt'', JInt 5)]) [] =
     (Inl (ValueError (bare_operator_message ''$gt'')), [])"
    by (simp add: build_filter_clause_def lower_def char_lower_def operator_keys_def)
  have d: "build_filter_clause
     (Some [(''$and'', JList [JDict [(''a'', JInt 1)], JDict [(''b'', JDict [(''$gt'', JInt 5)])]])]) [] =
     (Inr (CAnd [CTrue, CAnd [CAnd [CTrue, CJson Eq ''$.a'' (JInt 1)],
                              CAnd [CTrue, CJson Gt ''$.b'' (JInt 5)]]]), [])"
    by (simp add: build_filter_clause_def lower_def char_lower_def operator_keys_def
        create_filter_clause_def lookup_ci_def json_path_def)
  have e: "holds leaf (CAnd [CTrue, CAnd [CAnd [CTrue, CJson Eq ''$.a'' (JInt 1)],
                                     CAnd [CTrue, CJson Gt ''$.b'' (JInt 5)]]]) r =
      (leaf Eq ''$.a'' (JInt 1) (meta r) \<and> leaf Gt ''$.b'' (JInt 5) (meta r))" for leaf r
    by simp
  show ?thesis
    using a b c d e by blast
qed

theorem bare_operator_rejected_witness:
  "(''$GT'', JInt 5) \<in> set [(''a'', JInt 1), (''$GT'', JInt 5)] \<and>
   lower ''$GT'' \<in> set operator_keys \<and>
   filter_items [(''a'', JInt 1)] [] = (Inr [CJson Eq ''$.a'' (JInt 1)], []) \<and>
   build_filter_clause (Some ([(''a'', JInt 1)] @ (''$GT'', JInt 5) # [])) [] =
     (Inl (ValueError (bare_operator_message ''$GT'')), [])"
proof -
  have m: "(''$GT'', JInt 5) \<in> set [(''a'', JInt 1), (''$GT'', JInt 5)]" by simp
  have l: "lower ''$GT'' \<in> set operator_keys"
    by (simp add: lower_def char_lower_def operator_keys_def)
  have p: "filter_items [(''a'', JInt 1)] [] = (Inr [CJson Eq ''$.a'' (JInt 1)], [])"
    by (simp add: lower_def char_lower_def operator_keys_def json_path_def)
  from bare_operator_rejected l p
  have "build_filter_clause (Some ([(''a'', JInt 1)] @ (''$GT'', JInt 5) # [])) [] =
     (Inl (ValueError (bare_operator_message ''$GT'')), [])"
    by blast
  with m l p show ?thesis by blast
qed

lemma fst_conditions: "fst (conditions xs lg) = fst (conditions xs [])"
proof -
  have "conditions xs lg = (fst (conditions xs []), lg @ snd (conditions xs []))"
    using log_independent_aux(2) [of xs] by blast
  then show ?thesis by (metis fst_conv)
qed












section \<open>Properties of the statements\<close>

lemma truthy_zero: "truthy (Some 0) = truthy None"
  by (simp add: truthy_def)

lemma bound_filters_zero:
  "lower_bound_filter (Some 0) d = lower_bound_filter None d"
  "upper_bound_filter (Some 0) d = upper_bound_filter None d"
  by (simp_all add: lower_bound_filter_def upper_bound_filter_def truthy_def)

text \<open>
  Claim C1 says that a distance bound of exactly 0 is applied. The code does not apply
  it: with the upper bound 0 a row at distance 1 is returned, and for every input a bound
  of 0 gives the result of no bound at all.
\<close>

theorem zero_bound_ignored:
  "query (\<lambda>cmp path lit m. True) (\<lambda>a b. sqrt (\<Sum>(x, y) \<leftarrow> zip a b. (x - y)\<^sup>2))
     [\<lparr>id_col = ''r1'', embedding = [1], document = ''d1'', meta = JDict []\<rparr>]
     [0] 5 None None (Some 0) [] =
     (Inr [\<lparr>qr_id = ''r1'', qr_document = ''d1'', qr_metadata = JDict [], qr_distance = 1\<rparr>], []) \<and>
   (\<forall>leaf distance_fn tbl v k f ub lg.
      query leaf distance_fn tbl v k f (Some 0) ub lg = query leaf distance_fn tbl v k f None ub lg) \<and>
   (\<forall>leaf distance_fn tbl v k f lb lg.
      query leaf distance_fn tbl v k f lb (Some 0) lg = query leaf distance_fn tbl v k f lb None lg)"
proof -
  have a: "query (\<lambda>cmp path lit m. True) (\<lambda>a b. sqrt (\<Sum>(x, y) \<leftarrow> zip a b. (x - y)\<^sup>2))
     [\<lparr>id_col = ''r1'', embedding = [1], document = ''d1'', meta = JDict []\<rparr>]
     [0] 5 None None (Some 0) [] =
     (Inr [\<lparr>qr_id = ''r1'', qr_document = ''d1'', qr_metadata = JDict [], qr_distance = 1\<rparr>], [])"
    by (simp add: query_def vector_search_def build_filter_clause_def lower_bound_filter_def
        upper_bound_filter_def truthy_def)
  have b: "query leaf distance_fn tbl v k f (Some 0) ub lg = query leaf distance_fn tbl v k f None ub lg"
    for leaf distance_fn tbl v k f ub lg
    by (simp add: query_def vector_search_def bound_filters_zero split: prod.splits sum.splits)
  have c: "query leaf distance_fn tbl v k f lb (Some 0) lg = query leaf distance_fn tbl v k f lb None lg"
    for leaf distance_fn tbl v k f lb lg
    by (simp add: query_def vector_search_def bound_filters_zero split: prod.splits sum.splits)
  show ?thesis
    by (intro conjI allI a b c)
qed


lemma holds_conjunction:
  "holds leaf (CAnd [CIdIn ids, c]) r = (id_col r \<in> set ids \<and> holds leaf c r)"
  by simp

lemma holds_all_tests:
  "list_all (\<lambda>c. shape_of c = STest) cs \<Longrightarrow>
   holds leaf (CAnd (CTrue # cs)) r = list_all (\<lambda>c. holds leaf c r) cs"
  by simp





lemma execute_try_cases:
  "execute_try out sql = Inr env \<longleftrightarrow>
     entered out = None \<and> execute_body out sql = Inr env \<and> left_normally out = None"
  by (auto simp: execute_try_def split: option.splits sum.splits)

lemma execute_body_success:
  "execute_body out sql = Inr env \<Longrightarrow> \<exists>r. env = \<lparr>success = True, result = Some r, error = None\<rparr>"
  by (auto simp: execute_body_def split: option.splits sum.splits if_splits)

lemma execute_body_raises:
  "execute_body out sql = Inl m \<Longrightarrow> entered out = None \<Longrightarrow>
   execute (\<lambda>s p. out) sql params =
     failure (case left_raising out of Some m' \<Rightarrow> m' | None \<Rightarrow> m)"
  by (simp add: execute_def execute_try_def split: option.splits)

text \<open>
  Claim C8. For every session behaviour, statement and parameters, \<open>execute\<close>
  returns a dictionary: success with a result and no error, or failure with no result
  and a message, which is also logged. When every step succeeds the result is the
  fetched rows for a statement that starts with \<^verbatim>\<open>select\<close> (after stripping, in any
  letter case) and the row count otherwise. When a step fails the dictionary is the
  failure: with the message of the session that cannot be entered; with the message of
  \<^verbatim>\<open>session.execute\<close>, of \<^verbatim>\<open>session.commit\<close>, or of reading the rows or the row
  count, unless leaving the block raises in turn, whose message then takes its place;
  and with the message of leaving the block when the body has returned.
\<close>

theorem execute_never_raises:
  "((\<exists>r. execute db sql params = (\<lparr>success = True, result = Some r, error = None\<rparr>, [])) \<or>
    (\<exists>m. execute db sql params =
       (\<lparr>success = False, result = None, error = Some m\<rparr>, [''SQL execution error: '' @ m]))) \<and>
   (\<forall>m. failure m =
      ((\<lparr>success = False, result = None, error = Some m\<rparr>, [''SQL execution error: '' @ m])
        :: 'r envelope \<times> string list)) \<and>
   (\<forall>res rows. entered (db sql params) = None \<and> executed (db sql params) = Inr res \<and>
      committed (db sql params) = None \<and> left_normally (db sql params) = None \<and>
      startswith (lower (strip sql)) ''select'' \<and> fetchall res = Inr rows \<longrightarrow>
      execute db sql params = (\<lparr>success = True, result = Some (Rows rows), error = None\<rparr>, [])) \<and>
   (\<forall>res n. entered (db sql params) = None \<and> executed (db sql params) = Inr res \<and>
      committed (db sql params) = None \<and> left_normally (db sql params) = None \<and>
      \<not> startswith (lower (strip sql)) ''select'' \<and> rowcount res = Inr n \<longrightarrow>
      execute db sql params = (\<lparr>success = True, result = Some (RowCount n), error = None\<rparr>, [])) \<and>
   (\<forall>m. entered (db sql params) = Some m \<longrightarrow> execute db sql params = failure m) \<and>
   (\<forall>m. entered (db sql params) = None \<and> executed (db sql params) = Inl m \<longrightarrow>
      execute db sql params =
        failure (case left_raising (db sql params) of Some m' \<Rightarrow> m' | None \<Rightarrow> m)) \<and>
   (\<forall>res m. entered (db sql params) = None \<and> executed (db sql params) = Inr res \<and>
      committed (db sql params) = Some m \<longrightarrow>
      execute db sql params =
        failure (case left_raising (db sql params) of Some m' \<Rightarrow> m' | None \<Rightarrow> m)) \<and>
   (\<forall>res m. entered (db sql params) = None \<and> executed (db sql params) = Inr res \<and>
      committed (db sql params) = None \<and>
      startswith (lower (strip sql)) ''select'' \<and> fetchall res = Inl m \<longrightarrow>
      execute db sql params =
        failure (case left_raising (db sql params) of Some m' \<Rightarrow> m' | None \<Rightarrow> m)) \<and>
   (\<forall>res m. entered (db sql params) = None \<and> executed (db sql params) = Inr res \<and>
      committed (db sql params) = None \<and>
      \<not> startswith (lower (strip sql)) ''select'' \<and> rowcount res = Inl m \<longrightarrow>
      execute db sql params =
        failure (case left_raising (db sql params) of Some m' \<Rightarrow> m' | None \<Rightarrow> m)) \<and>
   (\<forall>res rows m. entered (db sql params) = None \<and> executed (db sql params) = Inr res \<and>
      committed (db sql params) = None \<and>
      startswith (lower (strip sql)) ''select'' \<and> fetchall res = Inr rows \<and>
      left_normally (db sql params) = Some m \<longrightarrow>
      execute db sql params = failure m) \<and>
   (\<forall>res n m. entered (db sql params) = None \<and> executed (db sql params) = Inr res \<and>
      committed (db sql params) = None \<and>
      \<not> startswith (lower (strip sql)) ''select'' \<and> rowcount res = Inr n \<and>
      left_normally (db sql params) = Some m \<longrightarrow>
      execute db sql params = failure m)"
proof -
  let ?out = "db sql params"
  have a: "(\<exists>r. execute db sql params = (\<lparr>success = True, result = Some r, error = None\<rparr>, [])) \<or>
    (\<exists>m. execute db sql params =
       (\<lparr>success = False, result = None, error = Some m\<rparr>, [''SQL execution error: '' @ m]))"
  proof (cases "execute_try ?out sql")
    case (Inl m)
    then show ?thesis by (simp add: execute_def failure_def)
  next
    case (Inr env)
    then have "execute_body ?out sql = Inr env"
      by (simp add: execute_try_cases)
    then obtain r where "env = \<lparr>success = True, result = Some r, error = None\<rparr>"
      using execute_body_success by blast
    with Inr show ?thesis by (simp add: execute_def)
  qed
  have f: "\<forall>m. failure m =
      ((\<lparr>success = False, result = None, error = Some m\<rparr>, [''SQL execution error: '' @ m])
        :: 'r envelope \<times> string list)"
    by (simp add: failure_def)
  have b: "\<forall>res rows. entered ?out = None \<and> executed ?out = Inr res \<and>
      committed ?out = None \<and> left_normally ?out = None \<and>
      startswith (lower (strip sql)) ''select'' \<and> fetchall res = Inr rows \<longrightarrow>
      execute db sql params = (\<lparr>success = True, result = Some (Rows rows), error = None\<rparr>, [])"
    by (simp add: execute_def execute_try_def execute_body_def)
  have c: "\<forall>res n. entered ?out = None \<and> executed ?out = Inr res \<and>
      committed ?out = None \<and> left_normally ?out = None \<and>
      \<not> startswith (lower (strip sql)) ''select'' \<and> rowcount res = Inr n \<longrightarrow>
      execute db sql params = (\<lparr>success = True, result = Some (RowCount n), error = None\<rparr>, [])"
    by (simp add: execute_def execute_try_def execute_body_def)
  have d1: "\<forall>m. entered ?out = Some m \<longrightarrow> execute db sql params = failure m"
    by (simp add: execute_def execute_try_def)
  have d2: "\<forall>m. entered ?out = None \<and> executed ?out = Inl m \<longrightarrow>
      execute db sql params =
        failure (case left_raising ?out of Some m' \<Rightarrow> m' | None \<Rightarrow> m)"
    by (simp add: execute_def execute_try_def execute_body_def split: option.splits)
  have d3: "\<forall>res m. entered ?out = None \<and> executed ?out = Inr res \<and>
      committed ?out = Some m \<longrightarrow>
      execute db sql params =
        failure (case left_raising ?out of Some m' \<Rightarrow> m' | None \<Rightarrow> m)"
    by (simp add: execute_def execute_try_def execute_body_def split: option.splits)
  have d4: "\<forall>res m. entered ?out = None \<and> executed ?out = Inr res \<and>
      committed ?out = None \<and>
      startswith (lower (strip sql)) ''select'' \<and> fetchall res = Inl m \<longrightarrow>
      execute db sql params =
        failure (case left_raising ?out of Some m' \<Rightarrow> m' | None \<Rightarrow> m)"
    by (simp add: execute_def execute_try_def execute_body_def split: option.splits)
  have d5: "\<forall>res m. entered ?out = None \<and> executed ?out = Inr res \<and>
      committed ?out = None \<and>
      \<not> startswith (lower (strip sql)) ''select'' \<and> rowcount res = Inl m \<longrightarrow>
      execute db sql params =
        failure (case left_raising ?out of Some m' \<Rightarrow> m' | None \<Rightarrow> m)"
    by (simp add: execute_def execute_try_def execute_body_def split: option.splits)
  have d6: "\<forall>res rows m. entered ?out = None \<and> executed ?out = Inr res \<and>
      committed ?out = None \<and>
      startswith (lower (strip sql)) ''select'' \<and> fetchall res = Inr rows \<and>
      left_normally ?out = Some m \<longrightarrow>
      execute db sql params = failure m"
    by (simp add: execute_def execute_try_def execute_body_def)
  have d7: "\<forall>res n m. entered ?out = None \<and> executed ?out = Inr res \<and>
      committed ?out = None \<and>
      \<not> startswith (lower (strip sql)) ''select'' \<and> rowcount res = Inr n \<and>
      left_normally ?out = Some m \<longrightarrow>
      execute db sql params = failure m"
    by (simp add: execute_def execute_try_def execute_body_def)
  show ?thesis
    by (intro conjI a f b c d1 d2 d3 d4 d5 d6 d7)
qed

theorem execute_never_raises_witness:
  "entered (demo_db ''  SELECT 1'' None) = None \<and>
   executed (demo_db ''  SELECT 1'' None) = Inr \<lparr>fetchall = Inr [''1''], rowcount = Inr (- 1)\<rparr> \<and>
   committed (demo_db ''  SELECT 1'' None) = None \<and>
   left_normally (demo_db ''  SELECT 1'' None) = None \<and>
   startswith (lower (strip ''  SELECT 1'')) ''select'' \<and>
   execute demo_db ''  SELECT 1'' None =
     (\<lparr>success = True, result = Some (Rows [''1'']), error = None\<rparr>, []) \<and>
   executed (demo_db ''SELECT * FROM non_existing_table'' None) = Inl ''no such table'' \<and>
   execute demo_db ''SELECT * FROM non_existing_table'' None =
     (\<lparr>success = False, result = None, error = Some ''no such table''\<rparr>,
      [''SQL execution error: no such table'']) \<and>
   committed (demo_db ''UPDATE t SET a = 1'' None) = Some ''deadlock'' \<and>
   execute demo_db ''UPDATE t SET a = 1'' None =
     (\<lparr>success = False, result = None, error = Some ''deadlock''\<rparr>,
      [''SQL execution error: deadlock'']) \<and>
   entered (demo_db ''DELETE FROM t'' None) = Some ''connection refused'' \<and>
   execute demo_db ''DELETE FROM t'' None =
     (\<lparr>success = False, result = None, error = Some ''connection refused''\<rparr>,
      [''SQL execution error: connection refused''])"
proof -
  let ?cur = "\<lparr>fetchall = Inr [''1''], rowcount = Inr (- 1)\<rparr> :: string cursor"
  let ?cur2 = "\<lparr>fetchall = Inl ''no rows'', rowcount = Inr 1\<rparr> :: string cursor"
  have h: "entered (demo_db ''  SELECT 1'' None) = None"
    "executed (demo_db ''  SELECT 1'' None) = Inr ?cur"
    "committed (demo_db ''  SELECT 1'' None) = None"
    "left_normally (demo_db ''  SELECT 1'' None) = None"
    by (simp_all add: demo_db_def)
  have s: "startswith (lower (strip ''  SELECT 1'')) ''select''"
    by (simp add: startswith_def lower_def char_lower_def strip_def is_space_def)
  have f: "fetchall ?cur = Inr [''1'']" by simp
  note select_rule = execute_never_raises
    [of demo_db "''  SELECT 1''" None, THEN conjunct2, THEN conjunct2, THEN conjunct1, rule_format]
  have ok: "execute demo_db ''  SELECT 1'' None =
     (\<lparr>success = True, result = Some (Rows [''1'']), error = None\<rparr>, [])"
    by (rule select_rule [of ?cur]) (intro conjI h s f)
  have g: "executed (demo_db ''SELECT * FROM non_existing_table'' None) = Inl ''no such table''"
    "entered (demo_db ''SELECT * FROM non_existing_table'' None) = None"
    "left_raising (demo_db ''SELECT * FROM non_existing_table'' None) = None"
    by (simp_all add: demo_db_def)
  note execute_rule = execute_never_raises
    [of demo_db "''SELECT * FROM non_existing_table''" None, THEN conjunct2, THEN conjunct2,
     THEN conjunct2, THEN conjunct2, THEN conjunct2, THEN conjunct1, rule_format]
  have "execute demo_db ''SELECT * FROM non_existing_table'' None =
      failure (case left_raising (demo_db ''SELECT * FROM non_existing_table'' None) of
                 Some m' \<Rightarrow> m' | None \<Rightarrow> ''no such table'')"
    by (rule execute_rule) (intro conjI g)
  then have bad: "execute demo_db ''SELECT * FROM non_existing_table'' None =
     (\<lparr>success = False, result = None, error = Some ''no such table''\<rparr>,
      [''SQL execution error: no such table''])"
    by (simp add: g failure_def)
  have u: "entered (demo_db ''UPDATE t SET a = 1'' None) = None"
    "executed (demo_db ''UPDATE t SET a = 1'' None) = Inr ?cur2"
    "committed (demo_db ''UPDATE t SET a = 1'' None) = Some ''deadlock''"
    "left_raising (demo_db ''UPDATE t SET a = 1'' None) = None"
    by (simp_all add: demo_db_def)
  note commit_rule = execute_never_raises
    [of demo_db "''UPDATE t SET a = 1''" None, THEN conjunct2, THEN conjunct2,
     THEN conjunct2, THEN conjunct2, THEN conjunct2, THEN conjunct2, THEN conjunct1, rule_format]
  have "execute demo_db ''UPDATE t SET a = 1'' None =
      failure (case left_raising (demo_db ''UPDATE t SET a = 1'' None) of
                 Some m' \<Rightarrow> m' | None \<Rightarrow> ''deadlock'')"
    by (rule commit_rule [of ?cur2]) (intro conjI u(1,2,3))
  then have bad2: "execute demo_db ''UPDATE t SET a = 1'' None =
     (\<lparr>success = False, result = None, error = Some ''deadlock''\<rparr>,
      [''SQL execution error: deadlock''])"
    by (simp add: u failure_def)
  have e: "entered (demo_db ''DELETE FROM t'' None) = Some ''connection refused''"
    by (simp add: demo_db_def)
  note enter_rule = execute_never_raises
    [of demo_db "''DELETE FROM t''" None, THEN conjunct2, THEN conjunct2,
     THEN conjunct2, THEN conjunct2, THEN conjunct1, rule_format]
  have "execute demo_db ''DELETE FROM t'' None = failure ''connection refused''"
    by (rule enter_rule) (rule e)
  then have bad3: "execute demo_db ''DELETE FROM t'' None =
     (\<lparr>success = False, result = None, error = Some ''connection refused''\<rparr>,
      [''SQL execution error: connection refused''])"
    by (simp add: failure_def)
  show ?thesis
    by (intro conjI h s ok g(1) bad u(3) bad2 e bad3)
qed

declare str_nat.simps [simp del]

lemma vecf64_4: "vecf64 (Some 4) = ''vecf64(4)''" "vecf64 (Some 3) = ''vecf64(3)''"
  by (simp_all add: vecf64_def str_opt_int_def str_int_def str_nat.simps)

text \<open>
  Claim C9, as amended. When the client does not ask to drop the existing table: a stored
  dimension that differs from the requested one makes the check raise the mismatch error
  carrying \<^verbatim>\<open>vecf64(stored)\<close> and \<^verbatim>\<open>vecf64(requested)\<close>; with compatible
  dimensions, a stored distance that differs from the requested strategy makes it raise
  the mismatch error carrying both column definitions with their comments. Stored
  dimension 4 against requested 3 raises with \<^verbatim>\<open>vecf64(4)\<close> and \<^verbatim>\<open>vecf64(3)\<close>.
  When the client asks to drop the existing table the check is skipped.
\<close>

theorem compatibility_mismatch:
  "(\<forall>a v s. \<not> drop_existing_table self \<and> vector_dimension self = Some v \<and> a \<noteq> v \<longrightarrow>
      check_table_compatibility fmt (Some a, s) self =
        Inl (EmbeddingColumnMismatchError (vecf64 (Some a)) (vecf64 (Some v)))) \<and>
   (\<forall>ad s d. \<not> drop_existing_table self \<and> distance_strategy self = Some d \<and> s \<noteq> strategy_value d \<and>
      (ad = None \<or> vector_dimension self = None \<or> ad = vector_dimension self) \<longrightarrow>
      check_table_compatibility fmt (ad, Some s) self =
        Inl (EmbeddingColumnMismatchError
               (vecf64_comment ad s)
               (vecf64_comment (if vector_dimension self = None then ad else vector_dimension self)
                  (fmt d)))) \<and>
   (\<forall>s ds. check_table_compatibility fmt (Some 4, s)
      \<lparr>drop_existing_table = False, vector_dimension = Some 3, distance_strategy = ds\<rparr> =
      Inl (EmbeddingColumnMismatchError ''vecf64(4)'' ''vecf64(3)'')) \<and>
   (\<forall>actual. drop_existing_table self \<longrightarrow> check_table_compatibility fmt actual self = Inr self)"
proof -
  have a: "check_table_compatibility fmt (Some a, s) self =
        Inl (EmbeddingColumnMismatchError (vecf64 (Some a)) (vecf64 (Some v)))"
    if "\<not> drop_existing_table self" "vector_dimension self = Some v" "a \<noteq> v" for a v s
    using that by (simp add: check_table_compatibility_def check_dimension_def)
  have b: "check_table_compatibility fmt (ad, Some s) self =
        Inl (EmbeddingColumnMismatchError
               (vecf64_comment ad s)
               (vecf64_comment (if vector_dimension self = None then ad else vector_dimension self)
                  (fmt d)))"
    if "\<not> drop_existing_table self" "distance_strategy self = Some d" "s \<noteq> strategy_value d"
      "ad = None \<or> vector_dimension self = None \<or> ad = vector_dimension self" for ad s d
    using that
    by (cases ad; cases "vector_dimension self")
       (auto simp: check_table_compatibility_def check_dimension_def check_distance_def)
  have c: "check_table_compatibility fmt (Some 4, s)
      \<lparr>drop_existing_table = False, vector_dimension = Some 3, distance_strategy = ds\<rparr> =
      Inl (EmbeddingColumnMismatchError ''vecf64(4)'' ''vecf64(3)'')" for s ds
    by (simp add: check_table_compatibility_def check_dimension_def vecf64_4)
  have d: "check_table_compatibility fmt actual self = Inr self" if "drop_existing_table self" for actual
    using that by (simp add: check_table_compatibility_def)
  show ?thesis
    using a b c d by (intro conjI allI impI; (elim conjE)?) (assumption | blast)+
qed

theorem compatibility_mismatch_witness:
  "\<not> drop_existing_table \<lparr>drop_existing_table = False, vector_dimension = Some 3, distance_strategy = Some L2\<rparr> \<and>
   check_table_compatibility strategy_value (Some 4, Some ''l2'')
     \<lparr>drop_existing_table = False, vector_dimension = Some 3, distance_strategy = Some L2\<rparr> =
     Inl (EmbeddingColumnMismatchError ''vecf64(4)'' ''vecf64(3)'') \<and>
   ''cosine'' \<noteq> strategy_value L2 \<and>
   check_table_compatibility strategy_value (Some 3, Some ''cosine'')
     \<lparr>drop_existing_table = False, vector_dimension = Some 3, distance_strategy = Some L2\<rparr> =
     Inl (EmbeddingColumnMismatchError
            (''vecf64(3) COMMENT '' @ [CHR 0x27] @ ''hnsw(distance=cosine)'' @ [CHR 0x27])
            (''vecf64(3) COMMENT '' @ [CHR 0x27] @ ''hnsw(distance=l2)'' @ [CHR 0x27]))"
proof -
  let ?self = "\<lparr>drop_existing_table = False, vector_dimension = Some 3, distance_strategy = Some L2\<rparr>"
  have h1: "\<not> drop_existing_table ?self" "vector_dimension ?self = Some 3" "(4 :: int) \<noteq> 3"
    "distance_strategy ?self = Some L2" "''cosine'' \<noteq> strategy_value L2"
    "Some 3 = None \<or> vector_dimension ?self = None \<or> Some 3 = vector_dimension ?self"
    by (simp_all add: strategy_value_def)
  from compatibility_mismatch [of ?self strategy_value] h1(1,2,3)
  have "check_table_compatibility strategy_value (Some 4, Some ''l2'') ?self =
      Inl (EmbeddingColumnMismatchError (vecf64 (Some 4)) (vecf64 (Some 3)))"
    by blast
  then have r1: "check_table_compatibility strategy_value (Some 4, Some ''l2'') ?self =
      Inl (EmbeddingColumnMismatchError ''vecf64(4)'' ''vecf64(3)'')"
    by (simp add: vecf64_4)
  from compatibility_mismatch [of ?self strategy_value] h1(1,4,5,6)
  have "check_table_compatibility strategy_value (Some 3, Some ''cosine'') ?self =
      Inl (EmbeddingColumnMismatchError
             (vecf64_comment (Some 3) ''cosine'')
             (vecf64_comment (if vector_dimension ?self = None then Some 3 else vector_dimension ?self)
                (strategy_value L2)))"
    by blast
  then have r2: "check_table_compatibility strategy_value (Some 3, Some ''cosine'') ?self =
     Inl (EmbeddingColumnMismatchError
            (''vecf64(3) COMMENT '' @ [CHR 0x27] @ ''hnsw(distance=cosine)'' @ [CHR 0x27])
            (''vecf64(3) COMMENT '' @ [CHR 0x27] @ ''hnsw(distance=l2)'' @ [CHR 0x27]))"
    by (simp add: vecf64_comment_def vecf64_4 strategy_value_def)
  from h1(1,5) r1 r2 show ?thesis by blast
qed

text \<open>
  The claim as stated, for every open, fails when the existing table is to be dropped:
  stored dimension 4 against requested 3 passes the check.
\<close>

theorem compatibility_check_skipped_on_drop:
  "check_table_compatibility strategy_value (Some 4, None)
     \<lparr>drop_existing_table = True, vector_dimension = Some 3, distance_strategy = None\<rparr> =
   Inr \<lparr>drop_existing_table = True, vector_dimension = Some 3, distance_strategy = None\<rparr>"
  by (simp add: check_table_compatibility_def)

end
